theory Spec2Isabelle
  imports Main
begin

section \<open>Python values and strings\<close>

text \<open>
  The notebook code is dynamically typed: a cell's fields hold whatever the caller or
  \<^verbatim>\<open>json.loads\<close> put there. Such values are modelled by \<open>pyval\<close>. A dict is an association
  list (looked up with \<open>map_of\<close>); numbers are integers. A Python \<^verbatim>\<open>str\<close> is modelled as the
  list of its code points, one \<open>char\<close> each, for code points below 256.
\<close>

datatype pyval =
    PNone
  | PBool bool
  | PInt int
  | PStr string
  | PList "pyval list"
  | PDict "(string \<times> pyval) list"

datatype py_error = JSONDecodeError | AttributeError | TypeError | OtherError string

text \<open>Truth value of a Python object, as \<^verbatim>\<open>x or y\<close> and \<^verbatim>\<open>if x\<close> test it.\<close>

fun truthy :: "pyval \<Rightarrow> bool" where
  "truthy PNone = False"
| "truthy (PBool b) = b"
| "truthy (PInt i) = (i \<noteq> 0)"
| "truthy (PStr s) = (s \<noteq> [])"
| "truthy (PList xs) = (xs \<noteq> [])"
| "truthy (PDict kv) = (kv \<noteq> [])"

abbreviation NL :: char where
  "NL \<equiv> CHR 0x0A"

text \<open>\<^verbatim>\<open>str.isspace\<close> on one character, which is also the class \<^verbatim>\<open>\s\<close> of \<^verbatim>\<open>re\<close>.\<close>

definition is_space :: "char \<Rightarrow> bool" where
  "is_space c = (c \<in> set [CHR 0x09, CHR 0x0A, CHR 0x0B, CHR 0x0C, CHR 0x0D,
                           CHR 0x1C, CHR 0x1D, CHR 0x1E, CHR 0x1F, CHR 0x20,
                           CHR 0x85, CHR 0xA0])"

text \<open>\<^verbatim>\<open>s.strip()\<close>\<close>

definition strip :: "string \<Rightarrow> string" where
  "strip s = rev (dropWhile is_space (rev (dropWhile is_space s)))"

text \<open>\<^verbatim>\<open>s.startswith(p)\<close>\<close>

definition startswith :: "string \<Rightarrow> string \<Rightarrow> bool" where
  "startswith s p = (take (length p) s = p)"

text \<open>
  The first occurrence of \<open>p\<close> in \<open>s\<close>: the text before it and the text after it.
  \<^verbatim>\<open>p in s\<close> is \<open>contains\<close>, and \<^verbatim>\<open>s.split(p)[0]\<close> is \<open>before_first\<close>.
\<close>

fun split_first :: "string \<Rightarrow> string \<Rightarrow> (string \<times> string) option" where
  "split_first p [] = (if p = [] then Some ([], []) else None)"
| "split_first p (c # cs) =
     (if startswith (c # cs) p then Some ([], drop (length p) (c # cs))
      else (case split_first p cs of
              None \<Rightarrow> None
            | Some (a, b) \<Rightarrow> Some (c # a, b)))"

definition contains :: "string \<Rightarrow> string \<Rightarrow> bool" where
  "contains p s = (case split_first p s of None \<Rightarrow> False | Some ab \<Rightarrow> True)"

definition before_first :: "string \<Rightarrow> string \<Rightarrow> string" where
  "before_first p s = (case split_first p s of None \<Rightarrow> s | Some (a, b) \<Rightarrow> a)"

text \<open>\<^verbatim>\<open>sep.join(xs)\<close>\<close>

fun join :: "string \<Rightarrow> string list \<Rightarrow> string" where
  "join sep [] = []"
| "join sep [x] = x"
| "join sep (x # y # ys) = x @ sep @ join sep (y # ys)"

lemma split_first_length:
  "split_first p s = Some (a, b) \<Longrightarrow> length a + length p + length b = length s"
proof (induction s arbitrary: a b)
  case Nil
  then show ?case by (simp split: if_splits)
next
  case (Cons c cs)
  show ?case
  proof (cases "startswith (c # cs) p")
    case True
    with Cons.prems have ab: "a = []" "b = drop (length p) (c # cs)" by simp_all
    from True have "length (take (length p) (c # cs)) = length p"
      by (simp add: startswith_def)
    then have "length p \<le> length (c # cs)" by simp
    with ab show ?thesis by simp
  next
    case False
    with Cons.prems obtain a' where s: "split_first p cs = Some (a', b)" and a: "a = c # a'"
      by (auto split: option.splits)
    from Cons.IH [OF s] a show ?thesis by simp
  qed
qed

section \<open>Regular expressions of the parsers\<close>

text \<open>
  \<^verbatim>\<open>re.finditer(r'<md>(.*?)</md>', content, re.DOTALL)\<close>, and the same for \<^verbatim>\<open>code\<close>: the group 1 of
  every match, left to right. A match starts at the first opening tag at or after the
  scan position and, the body being non-greedy and \<^verbatim>\<open>.\<close> matching every character, ends at
  the first closing tag after it; the scan goes on behind that closing tag. Without a closing
  tag behind the opening tag there is no match there, nor further right.
\<close>

function finditer_group :: "string \<Rightarrow> string \<Rightarrow> string \<Rightarrow> string list" where
  "finditer_group opn cls s =
     (if opn = [] then []
      else (case split_first opn s of
              None \<Rightarrow> []
            | Some (pre, r) \<Rightarrow>
                (case split_first cls r of
                   None \<Rightarrow> []
                 | Some (body, r') \<Rightarrow> body # finditer_group opn cls r')))"
  by pat_completeness auto
termination
proof (relation "measure (\<lambda>(opn, cls, s). length s)")
  show "wf (measure (\<lambda>(opn, cls, s). length s))" by simp
next
  fix opn cls s :: string and x2 pre r x2a body r'
  assume ne: "opn \<noteq> []"
    and a: "split_first opn s = Some x2" "(pre, r) = x2"
    and b: "split_first cls r = Some x2a" "(body, r') = x2a"
  from a have "length pre + length opn + length r = length s"
    using split_first_length by metis
  moreover from b have "length body + length cls + length r' = length r"
    using split_first_length by metis
  ultimately have "length r' < length s" using ne by (cases opn) auto
  then show "((opn, cls, r'), opn, cls, s) \<in> measure (\<lambda>(opn, cls, s). length s)" by simp
qed

declare finditer_group.simps [simp del]

text \<open>
  \<^verbatim>\<open>re.sub(r'```python\s*\n?|```\s*\n?', '', s)\<close>: at a fence (with the language tag, else bare)
  the fence and all white space behind it go; \<^verbatim>\<open>\s*\<close> is greedy, so \<^verbatim>\<open>\n?\<close> finds nothing left.
\<close>

function sub_fences_ws :: "string \<Rightarrow> string" where
  "sub_fences_ws [] = []"
| "sub_fences_ws (c # cs) =
     (if startswith (c # cs) ''```python'' then sub_fences_ws (dropWhile is_space (drop 9 (c # cs)))
      else if startswith (c # cs) ''```'' then sub_fences_ws (dropWhile is_space (drop 3 (c # cs)))
      else c # sub_fences_ws cs)"
  by pat_completeness auto
termination
  by (relation "measure length")
     (auto intro: le_less_trans [OF length_dropWhile_le])

section \<open>Cells and documents (notebook_utils.py, NeuralNotebook_V1.py)\<close>

record NotebookCell =
  cell_type :: pyval
  source :: "pyval list"
  outputs :: pyval
  metadata :: pyval

text \<open>\<^verbatim>\<open>NotebookCell.__init__(cell_type, source, outputs)\<close>\<close>

definition NotebookCell_init :: "pyval \<Rightarrow> pyval \<Rightarrow> pyval \<Rightarrow> NotebookCell" where
  "NotebookCell_init ct src outs =
     \<lparr> cell_type = ct,
       source = (case src of PList xs \<Rightarrow> xs | _ \<Rightarrow> [src]),
       outputs = (if truthy outs then outs else PList []),
       metadata = PDict [] \<rparr>"

text \<open>\<^verbatim>\<open>NotebookCell(cell_type, cell_content)\<close> with a string content, as the parsers call it.\<close>

definition new_cell :: "string \<Rightarrow> string \<Rightarrow> NotebookCell" where
  "new_cell ct content = NotebookCell_init (PStr ct) (PStr content) PNone"

section \<open>The tag parser of notebook_utils.py\<close>

definition parse_tagged_content :: "string \<Rightarrow> NotebookCell list" where
  "parse_tagged_content content0 =
     (let content = strip content0;
          content = (if contains ''<version_complete>'' content
                     then strip (before_first ''<version_complete>'' content)
                     else content)
      in map (\<lambda>body. new_cell ''markdown'' (strip body))
             (finditer_group ''<md>'' ''</md>'' content)
         @ map (\<lambda>body. new_cell ''code'' (sub_fences_ws (strip body)))
             (finditer_group ''<code>'' ''</code>'' content))"


section \<open>The parser of NeuralNotebook_V1.py\<close>

text \<open>One optional newline, as \<^verbatim>\<open>\n?\<close> takes it behind a fence.\<close>

fun drop_nl :: "string \<Rightarrow> string" where
  "drop_nl [] = []"
| "drop_nl (c # cs) = (if c = NL then cs else c # cs)"

lemma length_drop_nl: "length (drop_nl s) \<le> length s"
  by (cases s) auto

text \<open>\<^verbatim>\<open>re.sub(p + r'\n?', '', s)\<close> for a literal, non-empty \<open>p\<close>.\<close>

function sub_lit_nl :: "string \<Rightarrow> string \<Rightarrow> string" where
  "sub_lit_nl p [] = []"
| "sub_lit_nl p (c # cs) =
     (if p \<noteq> [] \<and> startswith (c # cs) p then sub_lit_nl p (drop_nl (drop (length p) (c # cs)))
      else c # sub_lit_nl p cs)"
  by pat_completeness auto
termination
proof (relation "measure (\<lambda>(p, s). length s)")
  show "wf (measure (\<lambda>(p, s). length s))" by simp
next
  fix p :: string and c cs
  assume "p \<noteq> [] \<and> startswith (c # cs) p"
  then have "length (drop (length p) (c # cs)) < length (c # cs)" by (cases p) auto
  with length_drop_nl [of "drop (length p) (c # cs)"]
  show "((p, drop_nl (drop (length p) (c # cs))), p, c # cs) \<in> measure (\<lambda>(p, s). length s)"
    by simp
next
  fix p :: string and c cs
  show "((p, cs), p, c # cs) \<in> measure (\<lambda>(p, s). length s)" by simp
qed

text \<open>\<^verbatim>\<open>re.sub(r'```python\n?|```\n?', '', s)\<close>\<close>

function sub_fences_nl :: "string \<Rightarrow> string" where
  "sub_fences_nl [] = []"
| "sub_fences_nl (c # cs) =
     (if startswith (c # cs) ''```python'' then sub_fences_nl (drop_nl (drop 9 (c # cs)))
      else if startswith (c # cs) ''```'' then sub_fences_nl (drop_nl (drop 3 (c # cs)))
      else c # sub_fences_nl cs)"
  by pat_completeness auto
termination
  by (relation "measure length")
     (auto intro: le_less_trans [OF length_drop_nl])

text \<open>The four delimiters of \<^verbatim>\<open>(<(?:md|code)>|</(?:md|code)>)\<close>, matched at the head of \<open>s\<close>.\<close>

definition match_tag :: "string \<Rightarrow> string option" where
  "match_tag s =
     (if startswith s ''<md>'' then Some ''<md>''
      else if startswith s ''<code>'' then Some ''<code>''
      else if startswith s ''</md>'' then Some ''</md>''
      else if startswith s ''</code>'' then Some ''</code>''
      else None)"

lemma match_tag_nonempty: "match_tag s = Some t \<Longrightarrow> 0 < length t"
  by (auto simp: match_tag_def split: if_splits)

text \<open>
  \<^verbatim>\<open>re.split(r'(<(?:md|code)>|</(?:md|code)>)', s)\<close>: the texts between the delimiters, with
  the delimiters themselves (the pattern is one capturing group); \<open>acc\<close> is the text read
  since the last delimiter.
\<close>

function split_tags :: "string \<Rightarrow> string \<Rightarrow> string list" where
  "split_tags acc [] = [acc]"
| "split_tags acc (c # cs) =
     (case match_tag (c # cs) of
        Some t \<Rightarrow> acc # t # split_tags [] (drop (length t) (c # cs))
      | None \<Rightarrow> split_tags (acc @ [c]) cs)"
  by pat_completeness auto
termination
  by (relation "measure (\<lambda>(acc, s). length s)")
     (auto dest: match_tag_nonempty)

text \<open>
  \<^verbatim>\<open>re.split(r'(```python[\s\S]*?```)', s)\<close>: a delimiter is an opening fence with the language
  tag, the shortest text behind it, and the next fence; an opening fence that no fence
  follows is plain text.
\<close>

function split_fenced :: "string \<Rightarrow> string \<Rightarrow> string list" where
  "split_fenced acc [] = [acc]"
| "split_fenced acc (c # cs) =
     (if startswith (c # cs) ''```python''
      then (case split_first ''```'' (drop 9 (c # cs)) of
              Some (body, r) \<Rightarrow> acc # (''```python'' @ body @ ''```'') # split_fenced [] r
            | None \<Rightarrow> split_fenced (acc @ [c]) cs)
      else split_fenced (acc @ [c]) cs)"
  by pat_completeness auto
termination
proof (relation "measure (\<lambda>(acc, s). length s)")
  show "wf (measure (\<lambda>(acc, s). length s))" by simp
next
  fix acc :: string and c cs x2 body r
  assume "split_first ''```'' (drop 9 (c # cs)) = Some x2" "(body, r) = x2"
  then have "length body + length ''```'' + length r = length (drop 9 (c # cs))"
    using split_first_length by metis
  then show "(([], r), acc, c # cs) \<in> measure (\<lambda>(acc, s). length s)" by simp
qed auto

text \<open>\<^verbatim>\<open>if current_type and current_content: cells.append(NotebookCell(current_type, '\n'.join(current_content)))\<close>\<close>

definition append_current :: "string option \<Rightarrow> string list \<Rightarrow> NotebookCell list \<Rightarrow> NotebookCell list" where
  "append_current current_type current_content cells =
     (case current_type of
        None \<Rightarrow> cells
      | Some t \<Rightarrow> if t \<noteq> [] \<and> current_content \<noteq> []
                  then cells @ [new_cell t (join [NL] current_content)]
                  else cells)"

text \<open>The loop over the parts of the tag branch, with the final append behind it.\<close>

fun tag_loop :: "string list \<Rightarrow> string option \<Rightarrow> string list \<Rightarrow> NotebookCell list \<Rightarrow> NotebookCell list" where
  "tag_loop [] current_type current_content cells =
     append_current current_type current_content cells"
| "tag_loop (part # parts) current_type current_content cells =
     (if strip part \<noteq> [] then
        (if part = ''<md>'' then
           tag_loop parts (Some ''markdown'') [] (append_current current_type current_content cells)
         else if part = ''<code>'' then
           tag_loop parts (Some ''code'') [] (append_current current_type current_content cells)
         else if \<not> startswith part ''</'' then
           (if current_type \<noteq> None \<and> current_type \<noteq> Some []
            then tag_loop parts current_type (current_content @ [strip part]) cells
            else tag_loop parts current_type current_content cells)
         else tag_loop parts current_type current_content cells)
      else tag_loop parts current_type current_content cells)"

text \<open>The body of the loop over the parts of the fallback branch, and the loop.\<close>

definition fence_step :: "NotebookCell list \<Rightarrow> string \<Rightarrow> NotebookCell list" where
  "fence_step cells part =
     (if strip part \<noteq> [] then
        (if startswith part ''```python'' then
           (let code = strip (sub_fences_nl part)
            in if code \<noteq> [] then cells @ [new_cell ''code'' code] else cells)
         else
           (let markdown = strip part
            in if markdown \<noteq> [] then cells @ [new_cell ''markdown'' markdown] else cells))
      else cells)"

fun fence_loop :: "string list \<Rightarrow> NotebookCell list \<Rightarrow> NotebookCell list" where
  "fence_loop [] cells = cells"
| "fence_loop (part # parts) cells = fence_loop parts (fence_step cells part)"

definition parse_tagged_content_V1 :: "string \<Rightarrow> NotebookCell list" where
  "parse_tagged_content_V1 content =
     (if contains ''<md>'' content \<or> contains ''<code>'' content then
        (let content = sub_lit_nl ''```python'' content;
             content = sub_lit_nl ''```'' content;
             parts = split_tags [] content
         in tag_loop parts None [] [])
      else
        (let parts = split_fenced [] content
         in fence_loop parts []))"


section \<open>The document model (notebook_utils.py, NeuralNotebook_V1.py)\<close>

text \<open>\<^verbatim>\<open>NotebookCell.to_dict\<close>\<close>

definition cell_to_dict :: "NotebookCell \<Rightarrow> pyval" where
  "cell_to_dict cell =
     PDict ([(''cell_type'', cell_type cell),
             (''metadata'', metadata cell),
             (''source'', PList (source cell))]
            @ (if cell_type cell = PStr ''code''
               then [(''execution_count'', PNone), (''outputs'', outputs cell)]
               else []))"

record NotebookDocument =
  cells :: "NotebookCell list"
  doc_metadata :: pyval

definition default_metadata :: pyval where
  "default_metadata =
     PDict [(''kernelspec'',
             PDict [(''display_name'', PStr ''Python 3''),
                    (''language'', PStr ''python''),
                    (''name'', PStr ''python3'')]),
            (''language_info'',
             PDict [(''codemirror_mode'', PDict [(''name'', PStr ''ipython''), (''version'', PInt 3)]),
                    (''file_extension'', PStr ''.py''),
                    (''mimetype'', PStr ''text/x-python''),
                    (''name'', PStr ''python''),
                    (''nbconvert_exporter'', PStr ''python''),
                    (''pygments_lexer'', PStr ''ipython3''),
                    (''version'', PStr ''3.8.10'')])]"

text \<open>\<^verbatim>\<open>NotebookDocument.__init__\<close>\<close>

definition NotebookDocument_init :: NotebookDocument where
  "NotebookDocument_init = \<lparr> cells = [], doc_metadata = default_metadata \<rparr>"

text \<open>The index tests \<^verbatim>\<open>0 <= index < len(self.cells)\<close> of the three operations.\<close>

definition in_range :: "NotebookDocument \<Rightarrow> int \<Rightarrow> bool" where
  "in_range doc index = (0 \<le> index \<and> index < int (length (cells doc)))"

definition add_cell :: "NotebookDocument \<Rightarrow> NotebookCell \<Rightarrow> int option \<Rightarrow> NotebookDocument" where
  "add_cell doc cell index =
     (case index of
        Some i \<Rightarrow>
          if in_range doc i
          then doc\<lparr>cells := take (nat i) (cells doc) @ cell # drop (nat i) (cells doc)\<rparr>
          else doc\<lparr>cells := cells doc @ [cell]\<rparr>
      | None \<Rightarrow> doc\<lparr>cells := cells doc @ [cell]\<rparr>)"

definition update_cell :: "NotebookDocument \<Rightarrow> int \<Rightarrow> pyval \<Rightarrow> NotebookDocument \<times> bool" where
  "update_cell doc index content =
     (if in_range doc index
      then (doc\<lparr>cells := (cells doc)
                [nat index := (cells doc ! nat index)
                   \<lparr>source := (case content of PList xs \<Rightarrow> xs | _ \<Rightarrow> [content])\<rparr>]\<rparr>,
            True)
      else (doc, False))"

definition delete_cell :: "NotebookDocument \<Rightarrow> int \<Rightarrow> NotebookDocument \<times> bool" where
  "delete_cell doc index =
     (if in_range doc index
      then (doc\<lparr>cells := take (nat index) (cells doc) @ drop (Suc (nat index)) (cells doc)\<rparr>, True)
      else (doc, False))"

text \<open>
  \<^verbatim>\<open>any(s.strip() for s in cell.source)\<close>: it stops at the first line that is not blank, and
  \<^verbatim>\<open>s.strip()\<close> raises on a line that is not a string.
\<close>

fun any_strip :: "pyval list \<Rightarrow> py_error + bool" where
  "any_strip [] = Inr False"
| "any_strip (PStr s # ss) = (if strip s \<noteq> [] then Inr True else any_strip ss)"
| "any_strip (v # ss) = Inl AttributeError"

text \<open>The filter \<^verbatim>\<open>cell.source and any(s.strip() for s in cell.source)\<close> of notebook_utils.py.\<close>

definition nonempty_cell :: "NotebookCell \<Rightarrow> py_error + bool" where
  "nonempty_cell cell = (if source cell = [] then Inr False else any_strip (source cell))"

text \<open>The list comprehension of \<^verbatim>\<open>NotebookDocument.to_dict\<close> in notebook_utils.py.\<close>

fun filtered_dicts :: "NotebookCell list \<Rightarrow> py_error + pyval list" where
  "filtered_dicts [] = Inr []"
| "filtered_dicts (cell # rest) =
     (case nonempty_cell cell of
        Inl e \<Rightarrow> Inl e
      | Inr keep \<Rightarrow>
          (case filtered_dicts rest of
             Inl e \<Rightarrow> Inl e
           | Inr ds \<Rightarrow> Inr (if keep then cell_to_dict cell # ds else ds)))"

text \<open>\<^verbatim>\<open>NotebookDocument.to_dict\<close> of notebook_utils.py\<close>

definition to_dict :: "NotebookDocument \<Rightarrow> py_error + pyval" where
  "to_dict doc =
     (case filtered_dicts (cells doc) of
        Inl e \<Rightarrow> Inl e
      | Inr ds \<Rightarrow> Inr (PDict [(''cells'', PList ds),
                              (''metadata'', doc_metadata doc),
                              (''nbformat'', PInt 4),
                              (''nbformat_minor'', PInt 5)]))"

text \<open>\<^verbatim>\<open>NotebookDocument.to_dict\<close> of NeuralNotebook_V1.py\<close>

definition to_dict_V1 :: "NotebookDocument \<Rightarrow> pyval" where
  "to_dict_V1 doc =
     PDict [(''cells'', PList (map cell_to_dict (cells doc))),
            (''metadata'', doc_metadata doc),
            (''nbformat'', PInt 4),
            (''nbformat_minor'', PInt 5)]"

text \<open>\<^verbatim>\<open>to_json\<close>, in both files; \<open>dumps\<close> is \<^verbatim>\<open>json.dumps(_, indent=2)\<close>.\<close>

definition to_json :: "(pyval \<Rightarrow> string) \<Rightarrow> NotebookDocument \<Rightarrow> py_error + string" where
  "to_json dumps doc = (case to_dict doc of Inl e \<Rightarrow> Inl e | Inr d \<Rightarrow> Inr (dumps d))"

definition to_json_V1 :: "(pyval \<Rightarrow> string) \<Rightarrow> NotebookDocument \<Rightarrow> string" where
  "to_json_V1 dumps doc = dumps (to_dict_V1 doc)"

text \<open>\<^verbatim>\<open>"".join(cell.source)\<close>, which raises on a line that is not a string.\<close>

fun join_source :: "pyval list \<Rightarrow> py_error + string" where
  "join_source [] = Inr []"
| "join_source (PStr s # ss) = (case join_source ss of Inl e \<Rightarrow> Inl e | Inr r \<Rightarrow> Inr (s @ r))"
| "join_source (v # ss) = Inl TypeError"

text \<open>The decimal numeral of a natural number, as an f-string prints it.\<close>

function str_nat :: "nat \<Rightarrow> string" where
  "str_nat n = (if n < 10 then [''0123456789'' ! n]
                else str_nat (n div 10) @ [''0123456789'' ! (n mod 10)])"
  by pat_completeness auto
termination
  by (relation "measure id") auto

declare str_nat.simps [simp del]

text \<open>
  How an f-string prints a value: a string as it is; \<open>fmt\<close> is \<^verbatim>\<open>str\<close> of Python on the values
  that are not strings.
\<close>

definition format_value :: "(pyval \<Rightarrow> string) \<Rightarrow> pyval \<Rightarrow> string" where
  "format_value fmt v = (case v of PStr s \<Rightarrow> s | _ \<Rightarrow> fmt v)"

text \<open>One entry of the transcript: \<^verbatim>\<open>f"## Cell {i+1} ({cell.cell_type}):\n{content}\n\n"\<close>\<close>

definition cell_entry :: "(pyval \<Rightarrow> string) \<Rightarrow> nat \<Rightarrow> NotebookCell \<Rightarrow> string \<Rightarrow> string" where
  "cell_entry fmt i cell content =
     ''## Cell '' @ str_nat (i + 1) @ '' ('' @ format_value fmt (cell_type cell) @ ''):''
     @ [NL] @ content @ [NL, NL]"

text \<open>The loop of \<^verbatim>\<open>to_plain_text\<close>: \<open>i\<close> is the counter of \<^verbatim>\<open>enumerate\<close>, \<open>text\<close> the text so far.\<close>

fun plain_text_loop :: "(pyval \<Rightarrow> string) \<Rightarrow> nat \<Rightarrow> NotebookCell list \<Rightarrow> string \<Rightarrow> py_error + string" where
  "plain_text_loop fmt i [] text = Inr text"
| "plain_text_loop fmt i (cell # rest) text =
     (case join_source (source cell) of
        Inl e \<Rightarrow> Inl e
      | Inr content \<Rightarrow> plain_text_loop fmt (i + 1) rest (text @ cell_entry fmt i cell content))"

definition to_plain_text :: "(pyval \<Rightarrow> string) \<Rightarrow> NotebookDocument \<Rightarrow> py_error + string" where
  "to_plain_text fmt doc =
     plain_text_loop fmt 0 (cells doc) (''# Notebook Content:'' @ [NL, NL])"

text \<open>\<^verbatim>\<open>d.get(k, default)\<close> on a dict.\<close>

definition dict_get :: "(string \<times> pyval) list \<Rightarrow> string \<Rightarrow> pyval \<Rightarrow> pyval" where
  "dict_get kv k d = (case map_of kv k of Some v \<Rightarrow> v | None \<Rightarrow> d)"

text \<open>What a \<^verbatim>\<open>for\<close> loop iterates over: a list's items, a dict's keys, a string's characters.\<close>

fun py_iter :: "pyval \<Rightarrow> py_error + pyval list" where
  "py_iter (PList xs) = Inr xs"
| "py_iter (PDict kv) = Inr (map (\<lambda>(k, v). PStr k) kv)"
| "py_iter (PStr s) = Inr (map (\<lambda>c. PStr [c]) s)"
| "py_iter v = Inl TypeError"

text \<open>The loop of \<^verbatim>\<open>from_json\<close> over the items of \<^verbatim>\<open>data.get("cells", [])\<close>.\<close>

fun from_json_loop :: "pyval list \<Rightarrow> NotebookDocument \<Rightarrow> py_error + NotebookDocument" where
  "from_json_loop [] doc = Inr doc"
| "from_json_loop (PDict cell_data # rest) doc =
     from_json_loop rest
       (add_cell doc
          ((NotebookCell_init (dict_get cell_data ''cell_type'' (PStr ''code''))
                              (dict_get cell_data ''source'' (PList []))
                              (dict_get cell_data ''outputs'' (PList [])))
             \<lparr>metadata := dict_get cell_data ''metadata'' (PDict [])\<rparr>)
          None)"
| "from_json_loop (v # rest) doc = Inl AttributeError"

text \<open>
  \<^verbatim>\<open>NotebookDocument.from_json\<close>, the same in both files; \<open>loads\<close> is \<^verbatim>\<open>json.loads\<close>. A value
  that is no dict has no \<^verbatim>\<open>get\<close>.
\<close>

definition from_json :: "(string \<Rightarrow> py_error + pyval) \<Rightarrow> string \<Rightarrow> py_error + NotebookDocument" where
  "from_json loads json_str =
     (case loads json_str of
        Inl e \<Rightarrow> Inl e
      | Inr (PDict data) \<Rightarrow>
          (let doc = NotebookDocument_init;
               doc = doc\<lparr>doc_metadata := dict_get data ''metadata'' (doc_metadata doc)\<rparr>
           in case py_iter (dict_get data ''cells'' (PList [])) of
                Inl e \<Rightarrow> Inl e
              | Inr items \<Rightarrow> from_json_loop items doc)
      | Inr v \<Rightarrow> Inl AttributeError)"


section \<open>The controller (neural_notebook_ui.py, NeuralNotebook_V1.py)\<close>

text \<open>
  The fields of \<^verbatim>\<open>NotebookApp\<close> that the two handlers below read and write. The message box,
  the status label and the redrawing of the editor leave them alone.
\<close>

record NotebookApp =
  notebook :: NotebookDocument
  generating_cell_index :: "int option"
  derive_mode_in_progress :: bool

text \<open>\<^verbatim>\<open>handle_ollama_error\<close>, the same in both files.\<close>

definition handle_ollama_error :: "NotebookApp \<Rightarrow> string \<Rightarrow> NotebookApp" where
  "handle_ollama_error app error_msg =
     (let app = (case generating_cell_index app of
                   Some g \<Rightarrow> app\<lparr>notebook := fst (delete_cell (notebook app) g),
                                 generating_cell_index := None\<rparr>
                 | None \<Rightarrow> app)
      in if derive_mode_in_progress app then app\<lparr>derive_mode_in_progress := False\<rparr> else app)"

text \<open>
  The loop \<^verbatim>\<open>for i, cell in enumerate(new_cells): self.notebook.add_cell(cell, g + i)\<close>;
  \<open>pos\<close> is \<^verbatim>\<open>g + i\<close>.
\<close>

fun add_cells_from :: "NotebookDocument \<Rightarrow> int \<Rightarrow> NotebookCell list \<Rightarrow> NotebookDocument" where
  "add_cells_from doc pos [] = doc"
| "add_cells_from doc pos (cell # rest) = add_cells_from (add_cell doc cell (Some pos)) (pos + 1) rest"

text \<open>
  The body of \<^verbatim>\<open>parse_and_update_cells\<close> behind the call of the parser, the same in both
  files. With no index set, \<^verbatim>\<open>delete_cell(None)\<close> raises on \<^verbatim>\<open>0 <= None\<close>.
\<close>

definition update_with_cells :: "NotebookApp \<Rightarrow> NotebookCell list \<Rightarrow> py_error + NotebookApp" where
  "update_with_cells app new_cells =
     (if new_cells \<noteq> [] then
        (case generating_cell_index app of
           None \<Rightarrow> Inl TypeError
         | Some g \<Rightarrow>
             (let doc = fst (delete_cell (notebook app) g);
                  doc = add_cells_from doc g new_cells
              in Inr (app\<lparr>notebook := doc,
                           generating_cell_index := Some (g + (int (length new_cells) - 1))\<rparr>)))
      else Inr app)"

text \<open>\<^verbatim>\<open>parse_and_update_cells\<close> of neural_notebook_ui.py and of NeuralNotebook_V1.py.\<close>

definition parse_and_update_cells :: "NotebookApp \<Rightarrow> string \<Rightarrow> py_error + NotebookApp" where
  "parse_and_update_cells app content = update_with_cells app (parse_tagged_content content)"

definition parse_and_update_cells_V1 :: "NotebookApp \<Rightarrow> string \<Rightarrow> py_error + NotebookApp" where
  "parse_and_update_cells_V1 app content = update_with_cells app (parse_tagged_content_V1 content)"

text \<open>
  The single-cell branch of \<^verbatim>\<open>generate_with_ollama\<close> in neural_notebook_ui.py, once the prompt
  dialog is confirmed, as far as it writes the document and the index:
  \<^verbatim>\<open>self.generating_cell_index = self.current_editing_cell or len(self.notebook.cells)\<close>
  (so no selection and the selection of cell 0 both give the length), then the markdown
  placeholder is added at that index and the code placeholder at the next one.
  \<open>current_editing_cell\<close> is only read.
\<close>

definition generate_with_ollama_single :: "NotebookApp \<Rightarrow> int option \<Rightarrow> NotebookApp" where
  "generate_with_ollama_single app current_editing_cell =
     (let g = (case current_editing_cell of
                 Some c \<Rightarrow> if c \<noteq> 0 then c else int (length (cells (notebook app)))
               | None \<Rightarrow> int (length (cells (notebook app))));
          doc = add_cell (notebook app)
                  (new_cell ''markdown'' ''Generating documentation...'') (Some g);
          doc = add_cell doc (new_cell ''code'' ''Generating code...'') (Some (g + 1))
      in app\<lparr>notebook := doc, generating_cell_index := Some g\<rparr>)"

text \<open>
  The single-cell branch of \<^verbatim>\<open>generate_with_ollama\<close> in NeuralNotebook_V1.py: one placeholder
  of the asked cell type, behind the selected cell (the selection and the index move to it)
  or at the end. The second component is the new \<open>current_editing_cell\<close>.
\<close>

definition generate_with_ollama_single_V1 ::
  "NotebookApp \<Rightarrow> int option \<Rightarrow> string \<Rightarrow> string \<Rightarrow> NotebookApp \<times> int option" where
  "generate_with_ollama_single_V1 app current_editing_cell ct ollama_model =
     (let placeholder_text = ''Generating '' @ ct @ '' content with '' @ ollama_model @ ''...''
      in case current_editing_cell of
           Some c \<Rightarrow>
             (app\<lparr>notebook := add_cell (notebook app) (new_cell ct placeholder_text) (Some (c + 1)),
                  generating_cell_index := Some (c + 1)\<rparr>,
              Some (c + 1))
         | None \<Rightarrow>
             (let doc = add_cell (notebook app) (new_cell ct placeholder_text) None
              in (app\<lparr>notebook := doc,
                      generating_cell_index := Some (int (length (cells doc)) - 1)\<rparr>,
                  None)))"

section \<open>The structure step of derive mode (ollama_agent.py)\<close>

text \<open>\<^verbatim>\<open>s.find(c)\<close> and \<^verbatim>\<open>s.rfind(c)\<close> for one character: the index, or -1.\<close>

fun find_char :: "char \<Rightarrow> string \<Rightarrow> int" where
  "find_char c [] = - 1"
| "find_char c (x # xs) =
     (if x = c then 0 else (let r = find_char c xs in if r < 0 then - 1 else r + 1))"

definition rfind_char :: "char \<Rightarrow> string \<Rightarrow> int" where
  "rfind_char c s = (let r = find_char c (rev s) in if r < 0 then - 1 else int (length s) - 1 - r)"

text \<open>\<^verbatim>\<open>s[a:b]\<close> for \<open>0 \<le> a\<close> and \<open>0 \<le> b\<close>.\<close>

definition slice :: "string \<Rightarrow> int \<Rightarrow> int \<Rightarrow> string" where
  "slice s a b = take (nat (b - a)) (drop (nat a) s)"

text \<open>The two default structures; \<open>title\<close> is \<^verbatim>\<open>prompt.strip().capitalize()\<close>.\<close>

definition default_structure :: "string \<Rightarrow> string \<Rightarrow> pyval" where
  "default_structure title prompt =
     PDict [(''title'', PStr title),
            (''sections'',
             PList [PDict [(''title'', PStr ''Introduction''),
                           (''type'', PStr ''section''),
                           (''cells'',
                            PList [PDict [(''type'', PStr ''markdown''),
                                          (''content'',
                                           PStr (''# '' @ prompt @ [NL, NL]
                                                 @ ''This notebook will explore '' @ prompt))],
                                   PDict [(''type'', PStr ''code''),
                                          (''purpose'', PStr ''Setup''),
                                          (''content'', PStr ''# Initial setup and imports'')]])]])]"

definition error_structure :: "string \<Rightarrow> string \<Rightarrow> pyval" where
  "error_structure title prompt =
     PDict [(''title'', PStr title),
            (''sections'',
             PList [PDict [(''title'', PStr ''Main Section''),
                           (''type'', PStr ''section''),
                           (''cells'',
                            PList [PDict [(''type'', PStr ''markdown''),
                                          (''content'', PStr (''# '' @ prompt))]])]])]"

text \<open>
  The \<^verbatim>\<open>try\<close> block of \<^verbatim>\<open>generate_notebook_structure\<close>. \<open>chat\<close> is what the model server
  streams (the increments of the answer, or the exception of the transport), \<open>loads\<close> is
  \<^verbatim>\<open>json.loads\<close>, \<open>capitalize\<close> is \<^verbatim>\<open>str.capitalize\<close>. The inner \<^verbatim>\<open>except\<close> takes a
  \<^verbatim>\<open>JSONDecodeError\<close> only.
\<close>

definition structure_try ::
  "(string \<Rightarrow> py_error + pyval) \<Rightarrow> (string \<Rightarrow> string) \<Rightarrow> string \<Rightarrow> py_error + string list
     \<Rightarrow> py_error + pyval" where
  "structure_try loads capitalize prompt chat =
     (case chat of
        Inl e \<Rightarrow> Inl e
      | Inr parts \<Rightarrow>
          (let result = strip (concat parts);
               json_start = find_char (CHR ''{'') result;
               json_end = rfind_char (CHR ''}'') result + 1
           in if json_start \<ge> 0 \<and> json_end > json_start then
                (case loads (slice result json_start json_end) of
                   Inl JSONDecodeError \<Rightarrow> Inr (default_structure (capitalize (strip prompt)) prompt)
                 | Inl e \<Rightarrow> Inl e
                 | Inr (PDict structure) \<Rightarrow>
                     if map_of structure ''title'' \<noteq> None \<and> map_of structure ''sections'' \<noteq> None
                     then Inr (PDict structure)
                     else Inr (default_structure (capitalize (strip prompt)) prompt)
                 | Inr v \<Rightarrow> Inr (default_structure (capitalize (strip prompt)) prompt))
              else Inr (default_structure (capitalize (strip prompt)) prompt)))"

text \<open>\<^verbatim>\<open>generate_notebook_structure\<close>: the outer \<^verbatim>\<open>except Exception\<close> takes every error left.\<close>

definition generate_notebook_structure ::
  "(string \<Rightarrow> py_error + pyval) \<Rightarrow> (string \<Rightarrow> string) \<Rightarrow> string \<Rightarrow> py_error + string list
     \<Rightarrow> pyval" where
  "generate_notebook_structure loads capitalize prompt chat =
     (case structure_try loads capitalize prompt chat of
        Inl e \<Rightarrow> error_structure (capitalize (strip prompt)) prompt
      | Inr structure \<Rightarrow> structure)"


section \<open>Cells whose source is text\<close>

text \<open>
  The data model of the specification has the source of a cell as a sequence of text lines,
  whose concatenation is the cell's text. The code keeps whatever value it was given, so the
  statements about text say so: \<open>text_cell\<close> holds when every line of the source is a string,
  \<open>cell_text\<close> is the concatenation, and \<open>blank\<close> is a text that is empty or all white space.
\<close>

fun is_str :: "pyval \<Rightarrow> bool" where
  "is_str (PStr s) = True"
| "is_str v = False"

fun str_of :: "pyval \<Rightarrow> string" where
  "str_of (PStr s) = s"
| "str_of v = []"

text \<open>A value that is a dict, and its items.\<close>

fun is_dict :: "pyval \<Rightarrow> bool" where
  "is_dict (PDict kv) = True"
| "is_dict v = False"

fun dict_items :: "pyval \<Rightarrow> (string \<times> pyval) list" where
  "dict_items (PDict kv) = kv"
| "dict_items v = []"


definition text_cell :: "NotebookCell \<Rightarrow> bool" where
  "text_cell cell = list_all is_str (source cell)"

definition cell_text :: "NotebookCell \<Rightarrow> string" where
  "cell_text cell = concat (map str_of (source cell))"

definition blank :: "string \<Rightarrow> bool" where
  "blank s = list_all is_space s"

section \<open>Regions of a tagged text\<close>


section \<open>Example documents\<close>

text \<open>\<^verbatim>\<open>str.capitalize\<close> on ASCII text, for the examples of the structure step.\<close>

definition upper_ascii :: "char \<Rightarrow> char" where
  "upper_ascii c = (let n = (of_char c :: nat) in if 97 \<le> n \<and> n \<le> 122 then char_of (n - 32) else c)"

definition lower_ascii :: "char \<Rightarrow> char" where
  "lower_ascii c = (let n = (of_char c :: nat) in if 65 \<le> n \<and> n \<le> 90 then char_of (n + 32) else c)"

definition capitalize_ascii :: "string \<Rightarrow> string" where
  "capitalize_ascii s = (case s of [] \<Rightarrow> [] | c # cs \<Rightarrow> upper_ascii c # map lower_ascii cs)"

text \<open>The tagged and the untagged answer of a model that the parsers are tried on.\<close>

definition tagged_example :: string where
  "tagged_example =
     ''<md>'' @ [NL] @ ''# Title'' @ [NL] @ ''</md>'' @ [NL, NL]
     @ ''<code>'' @ [NL] @ ''```python'' @ [NL] @ ''print(1)'' @ [NL] @ ''```'' @ [NL] @ ''</code>''"

definition untagged_example :: string where
  "untagged_example =
     ''Some text'' @ [NL] @ ''```python'' @ [NL] @ ''x=1'' @ [NL] @ ''```'' @ [NL] @ ''More text''"

text \<open>
  Two notebook files and the body of a structure object, and what \<^verbatim>\<open>json.loads\<close> returns on
  them and on the empty object; \<open>loads_examples\<close> stands for \<^verbatim>\<open>json.loads\<close> on these texts only
  and rejects every other text.
\<close>

definition cells_only_json :: string where
  \<open>cells_only_json = ''{"cells": [{"source": ["x = 1"]}, {"cell_type": "markdown", "source": ["hi"]}]}''\<close>

definition markdown_outputs_json :: string where
  \<open>markdown_outputs_json =
     ''{"cells": [{"cell_type": "markdown", "source": ["hi"], "outputs": [{"output_type": "stream"}]}]}''\<close>

definition structure_body :: string where
  \<open>structure_body = ''"title": "T", "sections": []''\<close>

definition loads_examples :: "string \<Rightarrow> py_error + pyval" where
  "loads_examples s =
     (if s = ''{}'' then Inr (PDict [])
      else if s = ''{'' @ structure_body @ ''}'' then
        Inr (PDict [(''title'', PStr ''T''), (''sections'', PList [])])
      else if s = cells_only_json then
        Inr (PDict [(''cells'',
                     PList [PDict [(''source'', PList [PStr ''x = 1''])],
                            PDict [(''cell_type'', PStr ''markdown''),
                                   (''source'', PList [PStr ''hi''])]])])
      else if s = markdown_outputs_json then
        Inr (PDict [(''cells'',
                     PList [PDict [(''cell_type'', PStr ''markdown''),
                                   (''source'', PList [PStr ''hi'']),
                                   (''outputs'', PList [PDict [(''output_type'', PStr ''stream'')]])]])])
      else Inl JSONDecodeError)"

text \<open>A document with one cell of empty source and one cell with text.\<close>

definition mixed_doc :: NotebookDocument where
  "mixed_doc = \<lparr> cells = [new_cell ''code'' [], new_cell ''markdown'' ''# A''],
                  doc_metadata = default_metadata \<rparr>"

definition two_cells :: NotebookDocument where
  "two_cells = \<lparr> cells = [new_cell ''markdown'' ''# A'', new_cell ''code'' ''x = 1''],
                  doc_metadata = default_metadata \<rparr>"

text \<open>An application with two cells and no generation running.\<close>

definition idle_app :: NotebookApp where
  "idle_app = \<lparr> notebook = two_cells, generating_cell_index = None,
                 derive_mode_in_progress = False \<rparr>"

definition streaming_app :: NotebookApp where
  "streaming_app = \<lparr> notebook = \<lparr> cells = [new_cell ''markdown'' ''# A'',
                                             new_cell ''code'' ''Generating code...'',
                                             new_cell ''markdown'' ''The end''],
                                    doc_metadata = default_metadata \<rparr>,
                      generating_cell_index = Some 1,
                      derive_mode_in_progress = False \<rparr>"


section \<open>Substrings and the regions of the tag parser\<close>


















section \<open>Blank text and the two views of a document\<close>

lemma strip_Nil_iff: "strip s = [] \<longleftrightarrow> blank s"
proof -
  let ?t = "dropWhile is_space s"
  have "strip s = [] \<longleftrightarrow> (\<forall>x \<in> set ?t. is_space x)"
    by (simp add: strip_def dropWhile_eq_Nil_conv)
  also have "\<dots> \<longleftrightarrow> ?t = []"
  proof
    assume a: "\<forall>x \<in> set ?t. is_space x"
    show "?t = []"
    proof (rule ccontr)
      assume n: "?t \<noteq> []"
      then have "\<not> is_space (hd ?t)" by (rule hd_dropWhile)
      moreover from n have "hd ?t \<in> set ?t" by simp
      ultimately show False using a by blast
    qed
  next
    assume "?t = []"
    then show "\<forall>x \<in> set ?t. is_space x" by (simp only: list.set ball_empty)
  qed
  also have "\<dots> \<longleftrightarrow> blank s"
    by (simp add: dropWhile_eq_Nil_conv blank_def list_all_iff)
  finally show ?thesis .
qed

lemma blank_append: "blank (a @ b) \<longleftrightarrow> blank a \<and> blank b"
  by (simp add: blank_def)

lemma any_strip_text:
  "list_all is_str src \<Longrightarrow> any_strip src = Inr (\<not> blank (concat (map str_of src)))"
proof (induction src)
  case Nil
  then show ?case by (simp add: blank_def)
next
  case (Cons v src)
  then obtain s where v: "v = PStr s" by (cases v) auto
  with Cons show ?case by (simp add: strip_Nil_iff blank_append)
qed

lemma join_source_text:
  "list_all is_str src \<Longrightarrow> join_source src = Inr (concat (map str_of src))"
proof (induction src)
  case Nil
  then show ?case by simp
next
  case (Cons v src)
  then obtain s where v: "v = PStr s" by (cases v) auto
  with Cons show ?case by simp
qed

lemma nonempty_cell_text: "text_cell c \<Longrightarrow> nonempty_cell c = Inr (\<not> blank (cell_text c))"
  by (simp add: nonempty_cell_def text_cell_def cell_text_def any_strip_text blank_def)

lemma filtered_dicts_text:
  "list_all text_cell cs \<Longrightarrow>
   filtered_dicts cs = Inr (map cell_to_dict (filter (\<lambda>c. \<not> blank (cell_text c)) cs))"
  by (induction cs) (simp_all add: nonempty_cell_text)

lemma plain_text_loop_text:
  "list_all text_cell cs \<Longrightarrow>
   plain_text_loop fmt i cs t
   = Inr (t @ concat (map (\<lambda>(k, c). cell_entry fmt k c (cell_text c))
                          (zip [i ..< i + length cs] cs)))"
proof (induction cs arbitrary: i t)
  case Nil
  then show ?case by simp
next
  case (Cons c cs)
  have js: "join_source (source c) = Inr (cell_text c)"
    using Cons.prems by (simp add: text_cell_def cell_text_def join_source_text)
  have up: "[i ..< i + length (c # cs)] = i # [i + 1 ..< (i + 1) + length cs]"
    using upt_conv_Cons [of i "i + length (c # cs)"] by simp
  from Cons.prems have "list_all text_cell cs" by simp
  from Cons.IH [OF this] js show ?case unfolding up by simp
qed



section \<open>Loading a document, and the outputs of cells\<close>

lemma from_json_loop_dicts:
  "list_all is_dict items \<Longrightarrow>
   \<exists>doc'. from_json_loop items doc = Inr doc'
     \<and> doc_metadata doc' = doc_metadata doc
     \<and> length (cells doc') = length (cells doc) + length items
     \<and> (\<forall>i < length (cells doc). cells doc' ! i = cells doc ! i)
     \<and> (\<forall>i < length items.
           cell_type (cells doc' ! (length (cells doc) + i))
             = dict_get (dict_items (items ! i)) ''cell_type'' (PStr ''code'')
         \<and> outputs (cells doc' ! (length (cells doc) + i))
             = (if truthy (dict_get (dict_items (items ! i)) ''outputs'' (PList []))
                then dict_get (dict_items (items ! i)) ''outputs'' (PList []) else PList []))"
proof (induction items arbitrary: doc)
  case Nil
  then show ?case by simp
next
  case (Cons v items)
  then obtain kv where v: "v = PDict kv" by (cases v) auto
  let ?cell = "(NotebookCell_init (dict_get kv ''cell_type'' (PStr ''code''))
                              (dict_get kv ''source'' (PList []))
                              (dict_get kv ''outputs'' (PList [])))
             \<lparr>metadata := dict_get kv ''metadata'' (PDict [])\<rparr>"
  let ?d = "add_cell doc ?cell None"
  have d: "cells ?d = cells doc @ [?cell]" "doc_metadata ?d = doc_metadata doc"
    by (simp_all add: add_cell_def)
  from Cons.prems have "list_all is_dict items" by simp
  from Cons.IH [OF this, of ?d] obtain doc' where
    r: "from_json_loop items ?d = Inr doc'"
    and m: "doc_metadata doc' = doc_metadata ?d"
    and l: "length (cells doc') = length (cells ?d) + length items"
    and old: "\<forall>i < length (cells ?d). cells doc' ! i = cells ?d ! i"
    and new: "\<forall>i < length items.
           cell_type (cells doc' ! (length (cells ?d) + i))
             = dict_get (dict_items (items ! i)) ''cell_type'' (PStr ''code'')
         \<and> outputs (cells doc' ! (length (cells ?d) + i))
             = (if truthy (dict_get (dict_items (items ! i)) ''outputs'' (PList []))
                then dict_get (dict_items (items ! i)) ''outputs'' (PList []) else PList [])"
    by blast
  have r': "from_json_loop (v # items) doc = Inr doc'" using r v by simp
  have old': "\<forall>i < length (cells doc). cells doc' ! i = cells doc ! i"
    using old d by (simp add: nth_append)
  have first: "cells doc' ! length (cells doc) = ?cell"
    using old d by (simp add: nth_append)
  have new': "\<forall>i < length (v # items).
           cell_type (cells doc' ! (length (cells doc) + i))
             = dict_get (dict_items ((v # items) ! i)) ''cell_type'' (PStr ''code'')
         \<and> outputs (cells doc' ! (length (cells doc) + i))
             = (if truthy (dict_get (dict_items ((v # items) ! i)) ''outputs'' (PList []))
                then dict_get (dict_items ((v # items) ! i)) ''outputs'' (PList []) else PList [])"
  proof (intro allI impI)
    fix i assume i: "i < length (v # items)"
    show "cell_type (cells doc' ! (length (cells doc) + i))
             = dict_get (dict_items ((v # items) ! i)) ''cell_type'' (PStr ''code'')
         \<and> outputs (cells doc' ! (length (cells doc) + i))
             = (if truthy (dict_get (dict_items ((v # items) ! i)) ''outputs'' (PList []))
                then dict_get (dict_items ((v # items) ! i)) ''outputs'' (PList []) else PList [])"
    proof (cases i)
      case 0
      with first v show ?thesis by (simp add: NotebookCell_init_def)
    next
      case (Suc j)
      with i have "j < length items" by simp
      with new d Suc show ?thesis by simp
    qed
  qed
  from r' m l old' new' d show ?case by simp
qed


lemma from_json_dicts:
  assumes l: "loads json_str = Inr (PDict data)"
    and c: "map_of data ''cells'' = Some (PList items)"
    and d: "list_all is_dict items"
  shows "\<exists>doc. from_json loads json_str = Inr doc
     \<and> doc_metadata doc = dict_get data ''metadata'' default_metadata
     \<and> length (cells doc) = length items
     \<and> (\<forall>i < length items.
           cell_type (cells doc ! i) = dict_get (dict_items (items ! i)) ''cell_type'' (PStr ''code'')
         \<and> outputs (cells doc ! i)
             = (if truthy (dict_get (dict_items (items ! i)) ''outputs'' (PList []))
                then dict_get (dict_items (items ! i)) ''outputs'' (PList []) else PList []))"
proof -
  let ?d0 = "NotebookDocument_init\<lparr>doc_metadata := dict_get data ''metadata'' default_metadata\<rparr>"
  have e: "from_json loads json_str = from_json_loop items ?d0"
    using l c
    by (cases "map_of data ''metadata''")
       (simp_all add: from_json_def dict_get_def NotebookDocument_init_def)
  have z: "cells ?d0 = []" "doc_metadata ?d0 = dict_get data ''metadata'' default_metadata"
    by (simp_all add: NotebookDocument_init_def)
  from from_json_loop_dicts [OF d, of ?d0] show ?thesis unfolding e z by simp
qed

lemma new_cell_outputs: "outputs (new_cell t x) = PList []"
  by (simp add: new_cell_def NotebookCell_init_def)

lemma append_current_outputs:
  "\<forall>c \<in> set cs. outputs c = PList [] \<Longrightarrow>
   \<forall>c \<in> set (append_current ct cc cs). outputs c = PList []"
  by (auto simp: append_current_def new_cell_outputs split: option.splits)

lemma tag_loop_outputs:
  "\<forall>c \<in> set cs. outputs c = PList [] \<Longrightarrow>
   \<forall>c \<in> set (tag_loop parts ct cc cs). outputs c = PList []"
proof (induction parts arbitrary: ct cc cs)
  case Nil
  then show ?case using append_current_outputs by simp
next
  case (Cons part parts)
  note ac = append_current_outputs [OF Cons.prems]
  show ?case
    using Cons.IH [OF Cons.prems] Cons.IH [OF ac]
    by (simp del: split_paired_All)
qed

lemma fence_step_outputs:
  "\<forall>c \<in> set cs. outputs c = PList [] \<Longrightarrow>
   \<forall>c \<in> set (fence_step cs part). outputs c = PList []"
  by (auto simp: fence_step_def Let_def new_cell_outputs)

lemma fence_loop_outputs:
  "\<forall>c \<in> set cs. outputs c = PList [] \<Longrightarrow>
   \<forall>c \<in> set (fence_loop parts cs). outputs c = PList []"
proof (induction parts arbitrary: cs)
  case Nil
  then show ?case by simp
next
  case (Cons part parts)
  from Cons.IH [OF fence_step_outputs [OF Cons.prems]] show ?case by simp
qed

lemma parse_outputs:
  "\<forall>c \<in> set (parse_tagged_content content). outputs c = PList []"
  by (auto simp: parse_tagged_content_def Let_def new_cell_outputs)

lemma parse_V1_outputs:
  "\<forall>c \<in> set (parse_tagged_content_V1 content). outputs c = PList []"
proof -
  have e: "\<forall>c \<in> set ([] :: NotebookCell list). outputs c = PList []" by simp
  show ?thesis
    unfolding parse_tagged_content_V1_def Let_def
    using tag_loop_outputs [OF e] fence_loop_outputs [OF e] by (simp split: if_splits)
qed

lemma update_cell_outputs:
  "map outputs (cells (fst (update_cell doc index v))) = map outputs (cells doc)"
proof (cases "in_range doc index")
  case True
  then have "nat index < length (cells doc)" by (auto simp: in_range_def)
  then show ?thesis using True
    by (simp add: update_cell_def map_update list_update_same_conv)
next
  case False
  then show ?thesis by (simp add: update_cell_def)
qed


section \<open>Finding the braces of the structure answer\<close>

lemma find_char_notin: "c \<notin> set s \<Longrightarrow> find_char c s = - 1"
  by (induction s) (auto simp: Let_def)

lemma find_char_first: "c \<notin> set a \<Longrightarrow> find_char c (a @ c # rest) = int (length a)"
  by (induction a) (auto simp: Let_def)

lemma find_char_split:
  "0 \<le> find_char c s \<Longrightarrow>
   \<exists>a rest. s = a @ c # rest \<and> c \<notin> set a \<and> find_char c s = int (length a)"
proof (induction s)
  case Nil
  then show ?case by simp
next
  case (Cons x xs)
  show ?case
  proof (cases "x = c")
    case True
    then have "x # xs = [] @ c # xs \<and> c \<notin> set [] \<and> find_char c (x # xs) = int (length ([]::string))"
      by simp
    then show ?thesis by blast
  next
    case False
    with Cons.prems have "0 \<le> find_char c xs" by (auto simp: Let_def split: if_splits)
    from Cons.IH [OF this] obtain a rest where
      "xs = a @ c # rest" "c \<notin> set a" "find_char c xs = int (length a)" by blast
    with False have "x # xs = (x # a) @ c # rest \<and> c \<notin> set (x # a)
        \<and> find_char c (x # xs) = int (length (x # a))"
      by (auto simp: Let_def)
    then show ?thesis by blast
  qed
qed

lemma rfind_char_last: "c \<notin> set post \<Longrightarrow> rfind_char c (pre @ c # post) = int (length pre)"
proof -
  assume n: "c \<notin> set post"
  have "rev (pre @ c # post) = rev post @ c # rev pre" by simp
  moreover from n have "c \<notin> set (rev post)" by simp
  ultimately have "find_char c (rev (pre @ c # post)) = int (length (rev post))"
    using find_char_first by metis
  then show ?thesis by (simp add: rfind_char_def Let_def)
qed

lemma rfind_char_notin: "c \<notin> set s \<Longrightarrow> rfind_char c s = - 1"
  by (simp add: rfind_char_def Let_def find_char_notin)

lemma rfind_char_split:
  assumes "0 \<le> rfind_char c s"
  shows "\<exists>pre post. s = pre @ c # post \<and> c \<notin> set post \<and> rfind_char c s = int (length pre)"
proof -
  from assms have "0 \<le> find_char c (rev s)"
    by (auto simp: rfind_char_def Let_def split: if_splits)
  from find_char_split [OF this] obtain a rest where
    r: "rev s = a @ c # rest" and n: "c \<notin> set a" by blast
  from r have "s = rev rest @ c # rev a" by (metis rev_append rev.simps(2) rev_rev_ident append.assoc append_Cons append_Nil)
  moreover from n have "c \<notin> set (rev a)" by simp
  ultimately show ?thesis using rfind_char_last by blast
qed

lemma braces_found:
  assumes r: "r = a @ ''{'' @ b @ ''}'' @ c"
    and na: "CHR ''{'' \<notin> set a" and nc: "CHR ''}'' \<notin> set c"
  shows "find_char (CHR ''{'') r = int (length a)"
    and "rfind_char (CHR ''}'') r + 1 = int (length a) + int (length b) + 2"
    and "slice r (find_char (CHR ''{'') r) (rfind_char (CHR ''}'') r + 1) = ''{'' @ b @ ''}''"
proof -
  have 1: "r = a @ CHR ''{'' # (b @ ''}'' @ c)" using r by simp
  show f: "find_char (CHR ''{'') r = int (length a)"
    unfolding 1 using na by (rule find_char_first)
  have 2: "r = (a @ ''{'' @ b) @ CHR ''}'' # c" using r by simp
  have "rfind_char (CHR ''}'') r = int (length (a @ ''{'' @ b))"
    unfolding 2 using nc by (rule rfind_char_last)
  then show e: "rfind_char (CHR ''}'') r + 1 = int (length a) + int (length b) + 2" by simp
  show "slice r (find_char (CHR ''{'') r) (rfind_char (CHR ''}'') r + 1) = ''{'' @ b @ ''}''"
  proof -
    have n: "nat (int (length a) + int (length b) + 2 - int (length a)) = length (''{'' @ b @ ''}'')"
      by simp
    have "drop (nat (int (length a))) r = (''{'' @ b @ ''}'') @ c" using r by simp
    then show ?thesis unfolding f e slice_def n by simp
  qed
qed

lemma braces_split:
  assumes s: "0 \<le> find_char (CHR ''{'') r"
    and e: "find_char (CHR ''{'') r < rfind_char (CHR ''}'') r + 1"
  shows "\<exists>a b c. r = a @ ''{'' @ b @ ''}'' @ c \<and> CHR ''{'' \<notin> set a \<and> CHR ''}'' \<notin> set c"
proof -
  from find_char_split [OF s] obtain a rest where
    1: "r = a @ CHR ''{'' # rest" and na: "CHR ''{'' \<notin> set a"
    and f: "find_char (CHR ''{'') r = int (length a)" by blast
  from s e have "0 \<le> rfind_char (CHR ''}'') r" by simp
  from rfind_char_split [OF this] obtain pre post where
    2: "r = pre @ CHR ''}'' # post" and nc: "CHR ''}'' \<notin> set post"
    and g: "rfind_char (CHR ''}'') r = int (length pre)" by blast
  from e f g have le: "length a \<le> length pre" by simp
  have "r ! length a = CHR ''{''" using 1 by simp
  moreover have "r ! length pre = CHR ''}''" using 2 by simp
  ultimately have "length a \<noteq> length pre" by auto
  with le have lt: "length a < length pre" by simp
  from 1 2 have "a @ CHR ''{'' # rest = pre @ CHR ''}'' # post" by simp
  then obtain b where "pre = a @ CHR ''{'' # b"
    using lt by (auto simp: append_eq_append_conv2 Cons_eq_append_conv)
  with 2 have "r = a @ ''{'' @ b @ ''}'' @ post" by simp
  with na nc show ?thesis by blast
qed


lemma structure_try_braces:
  assumes "chat = Inr parts"
    and r: "strip (concat parts) = a @ ''{'' @ b @ ''}'' @ c"
    and na: "CHR ''{'' \<notin> set a" and nc: "CHR ''}'' \<notin> set c"
  shows "structure_try loads capitalize prompt chat
         = (case loads (''{'' @ b @ ''}'') of
              Inl JSONDecodeError \<Rightarrow> Inr (default_structure (capitalize (strip prompt)) prompt)
            | Inl e \<Rightarrow> Inl e
            | Inr (PDict structure) \<Rightarrow>
                if map_of structure ''title'' \<noteq> None \<and> map_of structure ''sections'' \<noteq> None
                then Inr (PDict structure)
                else Inr (default_structure (capitalize (strip prompt)) prompt)
            | Inr v \<Rightarrow> Inr (default_structure (capitalize (strip prompt)) prompt))"
proof -
  note bf = braces_found [OF r na nc]
  have "0 \<le> find_char (CHR ''{'') (strip (concat parts))"
    and "find_char (CHR ''{'') (strip (concat parts)) < rfind_char (CHR ''}'') (strip (concat parts)) + 1"
    unfolding bf(1) bf(2) by simp_all
  then show ?thesis
    using assms(1) bf(3) by (simp add: structure_try_def Let_def)
qed

lemma structure_try_no_braces:
  assumes "chat = Inr parts"
    and n: "\<not> (\<exists>a b c. strip (concat parts) = a @ ''{'' @ b @ ''}'' @ c)"
  shows "structure_try loads capitalize prompt chat
         = Inr (default_structure (capitalize (strip prompt)) prompt)"
proof -
  have "\<not> (0 \<le> find_char (CHR ''{'') (strip (concat parts))
          \<and> find_char (CHR ''{'') (strip (concat parts))
              < rfind_char (CHR ''}'') (strip (concat parts)) + 1)"
    using braces_split [of "strip (concat parts)"] n by blast
  then show ?thesis using assms(1) by (auto simp: structure_try_def Let_def)
qed

lemma structure_try_cases:
  "(\<exists>e. structure_try loads capitalize prompt chat = Inl e)
   \<or> structure_try loads capitalize prompt chat
       = Inr (default_structure (capitalize (strip prompt)) prompt)
   \<or> (\<exists>kv. structure_try loads capitalize prompt chat = Inr (PDict kv)
         \<and> map_of kv ''title'' \<noteq> None \<and> map_of kv ''sections'' \<noteq> None)"
  by (auto simp: structure_try_def Let_def split: sum.splits py_error.splits pyval.splits)

lemma default_structure_keys:
  "\<exists>kv sec. default_structure t p = PDict kv \<and> map_of kv ''title'' = Some (PStr t)
      \<and> map_of kv ''sections'' = Some (PList [sec])"
  by (simp add: default_structure_def)

lemma error_structure_keys:
  "\<exists>kv sec. error_structure t p = PDict kv \<and> map_of kv ''title'' = Some (PStr t)
      \<and> map_of kv ''sections'' = Some (PList [sec])"
  by (simp add: error_structure_def)



section \<open>Replacing a cell by a run of cells\<close>

lemma add_cell_at:
  assumes "0 \<le> g" "nat g \<le> length (cells doc)"
  shows "add_cell doc cell (Some g)
         = doc\<lparr>cells := take (nat g) (cells doc) @ cell # drop (nat g) (cells doc)\<rparr>"
proof (cases "in_range doc g")
  case True
  then show ?thesis by (simp add: add_cell_def)
next
  case False
  with assms have "nat g = length (cells doc)" by (auto simp: in_range_def)
  with False show ?thesis by (simp add: add_cell_def)
qed

lemma add_cells_from_cells:
  "0 \<le> g \<Longrightarrow> nat g \<le> length (cells doc) \<Longrightarrow>
   add_cells_from doc g new
   = doc\<lparr>cells := take (nat g) (cells doc) @ new @ drop (nat g) (cells doc)\<rparr>"
proof (induction new arbitrary: doc g)
  case Nil
  then show ?case by simp
next
  case (Cons c new)
  let ?d = "doc\<lparr>cells := take (nat g) (cells doc) @ c # drop (nat g) (cells doc)\<rparr>"
  have step: "add_cell doc c (Some g) = ?d" using Cons.prems by (rule add_cell_at)
  have len: "nat (g + 1) \<le> length (cells ?d)" using Cons.prems by (simp add: nat_add_distrib)
  have "add_cells_from ?d (g + 1) new
        = ?d\<lparr>cells := take (nat (g + 1)) (cells ?d) @ new @ drop (nat (g + 1)) (cells ?d)\<rparr>"
    using Cons.prems len by (intro Cons.IH) auto
  moreover have "nat (g + 1) = Suc (nat g)" using Cons.prems by simp
  ultimately show ?case using Cons.prems step by (simp add: min_def)
qed

lemma update_with_cells_nonempty:
  assumes idx: "generating_cell_index app = Some g"
    and rng: "0 \<le> g" "g < int (length (cells (notebook app)))"
    and ne: "new_cells \<noteq> []"
  shows "update_with_cells app new_cells
         = Inr (app\<lparr>notebook := (notebook app)
                        \<lparr>cells := take (nat g) (cells (notebook app)) @ new_cells
                                  @ drop (Suc (nat g)) (cells (notebook app))\<rparr>,
                     generating_cell_index := Some (g + (int (length new_cells) - 1))\<rparr>)"
proof -
  let ?cs = "cells (notebook app)"
  let ?d = "(notebook app)\<lparr>cells := take (nat g) ?cs @ drop (Suc (nat g)) ?cs\<rparr>"
  have del: "fst (delete_cell (notebook app) g) = ?d"
    using rng by (simp add: delete_cell_def in_range_def)
  have "nat g \<le> length (cells ?d)" using rng by simp
  with rng(1) have "add_cells_from ?d g new_cells
      = ?d\<lparr>cells := take (nat g) (cells ?d) @ new_cells @ drop (nat g) (cells ?d)\<rparr>"
    by (rule add_cells_from_cells)
  moreover have "take (nat g) (cells ?d) = take (nat g) ?cs" using rng by simp
  moreover have "drop (nat g) (cells ?d) = drop (Suc (nat g)) ?cs" using rng by simp
  ultimately show ?thesis using idx ne del by (simp add: update_with_cells_def)
qed



section \<open>Document operations on an index out of range\<close>

text \<open>
  Claim C8. For an index outside \<open>0 \<le> index < len(cells)\<close>, \<open>delete_cell\<close> and \<open>update_cell\<close>
  return the failure flag and the document as it was (so the number of cells and every
  cell's content are unchanged); for an index in range they return the success flag.
\<close>

theorem delete_update_range:
  "(\<not> (0 \<le> index \<and> index < int (length (cells doc)))
      \<longrightarrow> delete_cell doc index = (doc, False) \<and> update_cell doc index content = (doc, False))
   \<and> (0 \<le> index \<and> index < int (length (cells doc))
      \<longrightarrow> snd (delete_cell doc index) \<and> snd (update_cell doc index content))"
  by (simp add: delete_cell_def update_cell_def in_range_def)

theorem delete_update_range_witness:
  "delete_cell two_cells 2 = (two_cells, False)
   \<and> update_cell two_cells (- 1) (PStr ''y'') = (two_cells, False)
   \<and> snd (delete_cell two_cells 1) \<and> snd (update_cell two_cells 0 (PStr ''y''))"
  using delete_update_range [of 2 two_cells "PStr ''y''"]
        delete_update_range [of "- 1" two_cells "PStr ''y''"]
        delete_update_range [of 1 two_cells "PStr ''y''"]
        delete_update_range [of 0 two_cells "PStr ''y''"]
  by (simp add: two_cells_def)


section \<open>The error handler\<close>

text \<open>
  The handler on its own: with an index set, it clears the index and the derive flag, and
  deletes the cell at the index, when there is one, the cells before and behind it staying
  as they were.
\<close>

lemma handle_ollama_error_clears:
  assumes "generating_cell_index app = Some g"
  shows "generating_cell_index (handle_ollama_error app error_msg) = None
     \<and> \<not> derive_mode_in_progress (handle_ollama_error app error_msg)
     \<and> doc_metadata (notebook (handle_ollama_error app error_msg)) = doc_metadata (notebook app)
     \<and> (0 \<le> g \<and> g < int (length (cells (notebook app))) \<longrightarrow>
          cells (notebook (handle_ollama_error app error_msg))
            = take (nat g) (cells (notebook app)) @ drop (Suc (nat g)) (cells (notebook app))
          \<and> length (cells (notebook (handle_ollama_error app error_msg)))
            = length (cells (notebook app)) - 1)"
  using assms by (auto simp: handle_ollama_error_def delete_cell_def in_range_def Let_def)

text \<open>
  Claim C6. The handler deletes the one cell the index names. In neural_notebook_ui.py a
  single-cell session starts with two placeholder cells and the index on the first, so
  after an error the placeholder \<^verbatim>\<open>Generating code...\<close> of that session is still in the
  document, at the place where the first one stood; the index is cleared. In
  NeuralNotebook_V1.py the session starts with one placeholder, and after an error the
  cells of the document are those from before the session.
\<close>

theorem second_placeholder_survives_error:
  "(0 < c \<and> c < int (length (cells (notebook app))) \<longrightarrow>
      cells (notebook (handle_ollama_error (generate_with_ollama_single app (Some c)) error_msg))
        = take (nat c) (cells (notebook app)) @ new_cell ''code'' ''Generating code...''
          # drop (nat c) (cells (notebook app)))
   \<and> cells (notebook (handle_ollama_error (generate_with_ollama_single app None) error_msg))
        = cells (notebook app) @ [new_cell ''code'' ''Generating code...'']
   \<and> cells (notebook (handle_ollama_error (generate_with_ollama_single app (Some 0)) error_msg))
        = cells (notebook app) @ [new_cell ''code'' ''Generating code...'']
   \<and> generating_cell_index
        (handle_ollama_error (generate_with_ollama_single app current_editing_cell) error_msg) = None
   \<and> (0 \<le> c \<and> c < int (length (cells (notebook app))) \<longrightarrow>
      cells (notebook (handle_ollama_error
                         (fst (generate_with_ollama_single_V1 app (Some c) ct ollama_model))
                         error_msg))
        = cells (notebook app))
   \<and> cells (notebook (handle_ollama_error
                        (fst (generate_with_ollama_single_V1 app None ct ollama_model))
                        error_msg))
        = cells (notebook app)"
proof (intro conjI impI)
  assume r: "0 < c \<and> c < int (length (cells (notebook app)))"
  then have n: "nat c < length (cells (notebook app))" by arith
  have "nat (c + 1) = Suc (nat c)" using r by arith
  with r n show "cells (notebook (handle_ollama_error (generate_with_ollama_single app (Some c)) error_msg))
        = take (nat c) (cells (notebook app)) @ new_cell ''code'' ''Generating code...''
          # drop (nat c) (cells (notebook app))"
    by (simp add: generate_with_ollama_single_def handle_ollama_error_def add_cell_def
          delete_cell_def in_range_def Let_def min_def)
next
  show "cells (notebook (handle_ollama_error (generate_with_ollama_single app None) error_msg))
        = cells (notebook app) @ [new_cell ''code'' ''Generating code...'']"
    by (simp add: generate_with_ollama_single_def handle_ollama_error_def add_cell_def
          delete_cell_def in_range_def Let_def)
next
  show "cells (notebook (handle_ollama_error (generate_with_ollama_single app (Some 0)) error_msg))
        = cells (notebook app) @ [new_cell ''code'' ''Generating code...'']"
    by (simp add: generate_with_ollama_single_def handle_ollama_error_def add_cell_def
          delete_cell_def in_range_def Let_def)
next
  show "generating_cell_index
        (handle_ollama_error (generate_with_ollama_single app current_editing_cell) error_msg) = None"
    by (simp add: generate_with_ollama_single_def handle_ollama_error_def Let_def)
next
  assume r: "0 \<le> c \<and> c < int (length (cells (notebook app)))"
  have s: "nat (c + 1) = Suc (nat c)" using r by arith
  show "cells (notebook (handle_ollama_error
                         (fst (generate_with_ollama_single_V1 app (Some c) ct ollama_model))
                         error_msg))
        = cells (notebook app)"
  proof (cases "c + 1 < int (length (cells (notebook app)))")
    case True
    with r s show ?thesis
      by (simp add: generate_with_ollama_single_V1_def handle_ollama_error_def add_cell_def
            delete_cell_def in_range_def Let_def min_def)
  next
    case False
    with r have "nat c + 1 = length (cells (notebook app))" by arith
    with r s False show ?thesis
      by (simp add: generate_with_ollama_single_V1_def handle_ollama_error_def add_cell_def
            delete_cell_def in_range_def Let_def)
  qed
next
  show "cells (notebook (handle_ollama_error
                        (fst (generate_with_ollama_single_V1 app None ct ollama_model))
                        error_msg))
        = cells (notebook app)"
    by (simp add: generate_with_ollama_single_V1_def handle_ollama_error_def add_cell_def
          delete_cell_def in_range_def Let_def)
qed


theorem second_placeholder_survives_error_witness:
  "cells (notebook (handle_ollama_error (generate_with_ollama_single idle_app None)
                      ''connection refused''))
     = [new_cell ''markdown'' ''# A'', new_cell ''code'' ''x = 1'',
        new_cell ''code'' ''Generating code...'']
   \<and> cells (notebook (handle_ollama_error (generate_with_ollama_single idle_app (Some 1))
                        ''connection refused''))
     = [new_cell ''markdown'' ''# A'', new_cell ''code'' ''Generating code...'',
        new_cell ''code'' ''x = 1'']
   \<and> generating_cell_index (handle_ollama_error (generate_with_ollama_single idle_app None)
                               ''connection refused'') = None
   \<and> cells (notebook (handle_ollama_error
                        (fst (generate_with_ollama_single_V1 idle_app (Some 1) ''code''
                                ''llama3:latest''))
                        ''connection refused''))
     = [new_cell ''markdown'' ''# A'', new_cell ''code'' ''x = 1'']"
proof -
  have c: "cells (notebook idle_app) = [new_cell ''markdown'' ''# A'', new_cell ''code'' ''x = 1'']"
    by (simp add: idle_app_def two_cells_def)
  have r: "(0::int) < 1 \<and> (1::int) < int (length (cells (notebook idle_app)))"
    "(0::int) \<le> 1 \<and> (1::int) < int (length (cells (notebook idle_app)))"
    by (simp_all add: c)
  from second_placeholder_survives_error
         [of 1 idle_app "''connection refused''" None "''code''" "''llama3:latest''"] r
  show ?thesis by (simp add: c)
qed


section \<open>Replacing the placeholder by the parsed cells\<close>

text \<open>
  Claim C10. \<open>parse_and_update_cells\<close> is \<open>update_with_cells\<close> on the cells the parser yields,
  in both files. With the placeholder index \<open>g\<close> in range and \<open>n \<ge> 1\<close> new cells, the cell
  at \<open>g\<close> goes and the new cells stand at \<open>g, \<dots>, g + n - 1\<close> in their order; the cells below
  \<open>g\<close> stay, the cells behind \<open>g\<close> move by \<open>n - 1\<close>, the number of cells changes by \<open>n - 1\<close>,
  and the index moves to \<open>g + n - 1\<close>, the last new cell. With no new cell nothing changes.
\<close>

theorem parse_and_update_cells_replaces:
  assumes idx: "generating_cell_index app = Some g"
    and rng: "0 \<le> g" "g < int (length (cells (notebook app)))"
  shows "parse_and_update_cells app content = update_with_cells app (parse_tagged_content content)
     \<and> parse_and_update_cells_V1 app content = update_with_cells app (parse_tagged_content_V1 content)
     \<and> (new_cells = [] \<longrightarrow> update_with_cells app new_cells = Inr app)
     \<and> (new_cells \<noteq> [] \<longrightarrow>
          (\<exists>app'. update_with_cells app new_cells = Inr app'
             \<and> cells (notebook app')
                 = take (nat g) (cells (notebook app)) @ new_cells
                   @ drop (Suc (nat g)) (cells (notebook app))
             \<and> int (length (cells (notebook app')))
                 = int (length (cells (notebook app))) + (int (length new_cells) - 1)
             \<and> generating_cell_index app' = Some (g + (int (length new_cells) - 1))
             \<and> cells (notebook app') ! nat (g + (int (length new_cells) - 1)) = last new_cells
             \<and> (\<forall>k < nat g. cells (notebook app') ! k = cells (notebook app) ! k)
             \<and> (\<forall>k < length new_cells. cells (notebook app') ! (nat g + k) = new_cells ! k)
             \<and> (\<forall>k. nat g < k \<and> k < length (cells (notebook app)) \<longrightarrow>
                    cells (notebook app') ! (k + length new_cells - 1) = cells (notebook app) ! k)
             \<and> doc_metadata (notebook app') = doc_metadata (notebook app)
             \<and> derive_mode_in_progress app' = derive_mode_in_progress app))"
proof -
  let ?cs = "cells (notebook app)"
  let ?n = "length new_cells"
  let ?new = "take (nat g) ?cs @ new_cells @ drop (Suc (nat g)) ?cs"
  have empty: "new_cells = [] \<longrightarrow> update_with_cells app new_cells = Inr app"
    by (simp add: update_with_cells_def)
  have full: "new_cells \<noteq> [] \<longrightarrow>
          (\<exists>app'. update_with_cells app new_cells = Inr app'
             \<and> cells (notebook app') = ?new
             \<and> int (length (cells (notebook app'))) = int (length ?cs) + (int ?n - 1)
             \<and> generating_cell_index app' = Some (g + (int ?n - 1))
             \<and> cells (notebook app') ! nat (g + (int ?n - 1)) = last new_cells
             \<and> (\<forall>k < nat g. cells (notebook app') ! k = ?cs ! k)
             \<and> (\<forall>k < ?n. cells (notebook app') ! (nat g + k) = new_cells ! k)
             \<and> (\<forall>k. nat g < k \<and> k < length ?cs \<longrightarrow>
                    cells (notebook app') ! (k + ?n - 1) = ?cs ! k)
             \<and> doc_metadata (notebook app') = doc_metadata (notebook app)
             \<and> derive_mode_in_progress app' = derive_mode_in_progress app)"
  proof
    assume ne: "new_cells \<noteq> []"
    have lg: "length (take (nat g) ?cs) = nat g" using rng by simp
    have len: "int (length ?new) = int (length ?cs) + (int ?n - 1)" using rng by auto
    have below: "\<forall>k < nat g. ?new ! k = ?cs ! k"
      using rng by (simp add: nth_append)
    have mid: "\<forall>k < ?n. ?new ! (nat g + k) = new_cells ! k"
      using lg by (simp add: nth_append)
    have above: "\<forall>k. nat g < k \<and> k < length ?cs \<longrightarrow> ?new ! (k + ?n - 1) = ?cs ! k"
    proof (intro allI impI)
      fix k assume k: "nat g < k \<and> k < length ?cs"
      then obtain j where j: "k = Suc (nat g) + j" using less_iff_Suc_add by auto
      have "k + ?n - 1 = nat g + ?n + j" using j by simp
      then have "?new ! (k + ?n - 1) = drop (Suc (nat g)) ?cs ! j"
        using lg by (simp add: nth_append)
      also have "\<dots> = ?cs ! k" using k j by simp
      finally show "?new ! (k + ?n - 1) = ?cs ! k" .
    qed
    have pos: "nat (g + (int ?n - 1)) = nat g + (?n - 1)" using rng ne
      by (cases new_cells) (simp_all add: nat_add_distrib)
    have "?n - 1 < ?n" using ne by simp
    with mid have "?new ! (nat g + (?n - 1)) = new_cells ! (?n - 1)" by blast
    moreover have "last new_cells = new_cells ! (?n - 1)" using ne by (rule last_conv_nth)
    ultimately have lst: "?new ! nat (g + (int ?n - 1)) = last new_cells"
      using pos by presburger
    show "\<exists>app'. update_with_cells app new_cells = Inr app'
             \<and> cells (notebook app') = ?new
             \<and> int (length (cells (notebook app'))) = int (length ?cs) + (int ?n - 1)
             \<and> generating_cell_index app' = Some (g + (int ?n - 1))
             \<and> cells (notebook app') ! nat (g + (int ?n - 1)) = last new_cells
             \<and> (\<forall>k < nat g. cells (notebook app') ! k = ?cs ! k)
             \<and> (\<forall>k < ?n. cells (notebook app') ! (nat g + k) = new_cells ! k)
             \<and> (\<forall>k. nat g < k \<and> k < length ?cs \<longrightarrow>
                    cells (notebook app') ! (k + ?n - 1) = ?cs ! k)
             \<and> doc_metadata (notebook app') = doc_metadata (notebook app)
             \<and> derive_mode_in_progress app' = derive_mode_in_progress app"
      unfolding update_with_cells_nonempty [OF idx rng ne]
      using len below mid above lst by simp
  qed
  show ?thesis using empty full
    by (simp only: parse_and_update_cells_def parse_and_update_cells_V1_def simp_thms)
qed

theorem parse_and_update_cells_replaces_witness:
  "generating_cell_index streaming_app = Some 1
   \<and> (1::int) < int (length (cells (notebook streaming_app)))
   \<and> parse_tagged_content ''<md>T</md><code>x</code>'' \<noteq> []
   \<and> (\<exists>app'. parse_and_update_cells streaming_app ''<md>T</md><code>x</code>'' = Inr app'
          \<and> cells (notebook app')
              = [new_cell ''markdown'' ''# A'', new_cell ''markdown'' ''T'', new_cell ''code'' ''x'',
                 new_cell ''markdown'' ''The end'']
          \<and> generating_cell_index app' = Some 2)
   \<and> parse_and_update_cells streaming_app ''<code>x'' = Inr streaming_app"
proof -
  have p: "parse_tagged_content ''<md>T</md><code>x</code>''
           = [new_cell ''markdown'' ''T'', new_cell ''code'' ''x'']"
    by code_simp
  have q: "parse_tagged_content ''<code>x'' = []"
    by code_simp
  have i: "generating_cell_index streaming_app = Some 1"
    and r: "(0::int) \<le> 1" "(1::int) < int (length (cells (notebook streaming_app)))"
    by (simp_all add: streaming_app_def)
  from parse_and_update_cells_replaces [OF i r, of "''<md>T</md><code>x</code>''"
         "[new_cell ''markdown'' ''T'', new_cell ''code'' ''x'']"]
       parse_and_update_cells_replaces [OF i r, of "''<code>x''" "[]"]
  show ?thesis
    unfolding p q using i r by (auto simp: streaming_app_def)
qed

section \<open>Opening tags without a closing tag\<close>




section \<open>The two worked examples of the parsers\<close>

text \<open>
  Claim C2. On the tagged example the parser of notebook_utils.py returns the markdown cell
  \<^verbatim>\<open># Title\<close> and a code cell whose source is \<^verbatim>\<open>print(1)\<close> followed by a newline: the body is
  stripped before the fences are removed, and the newline in front of the closing fence
  stays. The parser of NeuralNotebook_V1.py returns the source \<^verbatim>\<open>print(1)\<close>.
\<close>

theorem tagged_example_cells:
  "parse_tagged_content tagged_example
     = [new_cell ''markdown'' ''# Title'', new_cell ''code'' (''print(1)'' @ [NL])]
   \<and> parse_tagged_content_V1 tagged_example
     = [new_cell ''markdown'' ''# Title'', new_cell ''code'' ''print(1)'']"
  by code_simp

text \<open>
  Claim C5, as the code has it. The untagged example holds neither \<^verbatim>\<open><md>\<close> nor \<^verbatim>\<open><code>\<close>, and
  the parser of NeuralNotebook_V1.py returns the three cells of the claim from its fallback
  branch.
\<close>

theorem untagged_example_cells_V1:
  "\<not> contains ''<md>'' untagged_example \<and> \<not> contains ''<code>'' untagged_example
   \<and> parse_tagged_content_V1 untagged_example
     = [new_cell ''markdown'' ''Some text'', new_cell ''code'' ''x=1'',
        new_cell ''markdown'' ''More text'']"
  by code_simp

text \<open>
  Claim C5 as stated fails on notebook_utils.py, whose parser has no fallback branch: it
  returns no cell on the untagged example.
\<close>

theorem untagged_example_no_cells:
  "parse_tagged_content untagged_example = []"
  by code_simp

section \<open>Serialisation and the context transcript\<close>

text \<open>
  Claim C4, as the code has it. For a document whose cells hold text, \<open>to_dict\<close> of
  notebook_utils.py (and \<open>to_json\<close>, which prints it) emits exactly the cells whose text is
  not blank, in their order, while
  \<open>to_plain_text\<close> (the same in both files) renders every cell, blank or not, as the entry
  with its number. On the document with one empty cell and one cell with text the first view
  has one cell and the second has two entries.
\<close>

theorem serialize_filters_context_keeps:
  assumes "list_all text_cell (cells doc)"
  shows "to_dict doc
         = Inr (PDict [(''cells'', PList (map cell_to_dict
                                           (filter (\<lambda>c. \<not> blank (cell_text c)) (cells doc)))),
                       (''metadata'', doc_metadata doc),
                       (''nbformat'', PInt 4),
                       (''nbformat_minor'', PInt 5)])
     \<and> to_json dumps doc
         = Inr (dumps (PDict [(''cells'', PList (map cell_to_dict
                                           (filter (\<lambda>c. \<not> blank (cell_text c)) (cells doc)))),
                              (''metadata'', doc_metadata doc),
                              (''nbformat'', PInt 4),
                              (''nbformat_minor'', PInt 5)]))
     \<and> to_plain_text fmt doc
         = Inr (''# Notebook Content:'' @ [NL, NL]
                @ concat (map (\<lambda>(k, c). cell_entry fmt k c (cell_text c))
                              (zip [0 ..< length (cells doc)] (cells doc))))"
  using assms filtered_dicts_text [OF assms] plain_text_loop_text [OF assms, of fmt 0]
  by (simp add: to_dict_def to_json_def to_plain_text_def)

theorem serialize_filters_context_keeps_witness:
  "list_all text_cell (cells mixed_doc)
   \<and> to_dict mixed_doc
       = Inr (PDict [(''cells'', PList [cell_to_dict (new_cell ''markdown'' ''# A'')]),
                     (''metadata'', default_metadata),
                     (''nbformat'', PInt 4),
                     (''nbformat_minor'', PInt 5)])
   \<and> to_plain_text (\<lambda>v. []) mixed_doc
       = Inr (''# Notebook Content:'' @ [NL, NL]
              @ ''## Cell 1 (code):'' @ [NL, NL, NL]
              @ ''## Cell 2 (markdown):'' @ [NL] @ ''# A'' @ [NL, NL])"
proof -
  have h: "list_all text_cell (cells mixed_doc)" by code_simp
  have f: "filter (\<lambda>c. \<not> blank (cell_text c)) (cells mixed_doc) = [new_cell ''markdown'' ''# A'']"
    by code_simp
  have e: "''# Notebook Content:'' @ [NL, NL]
           @ concat (map (\<lambda>(k, c). cell_entry (\<lambda>v. []) k c (cell_text c))
                         (zip [0 ..< length (cells mixed_doc)] (cells mixed_doc)))
           = ''# Notebook Content:'' @ [NL, NL]
              @ ''## Cell 1 (code):'' @ [NL, NL, NL]
              @ ''## Cell 2 (markdown):'' @ [NL] @ ''# A'' @ [NL, NL]"
    by code_simp
  have m: "doc_metadata mixed_doc = default_metadata" by (simp add: mixed_doc_def)
  from serialize_filters_context_keeps [OF h, of "\<lambda>d. []" "\<lambda>v. []"] h
  show ?thesis unfolding f e m by simp
qed

text \<open>
  Claim C4 as stated fails on NeuralNotebook_V1.py, whose \<open>to_dict\<close> has no filter: the cell
  with the empty source is emitted.
\<close>

theorem to_dict_V1_keeps_empty_cell:
  "blank (cell_text (new_cell ''code'' []))
   \<and> to_dict_V1 mixed_doc
       = PDict [(''cells'', PList [cell_to_dict (new_cell ''code'' []),
                                   cell_to_dict (new_cell ''markdown'' ''# A'')]),
                (''metadata'', default_metadata),
                (''nbformat'', PInt 4),
                (''nbformat_minor'', PInt 5)]"
  by code_simp

section \<open>Loading a document\<close>

text \<open>
  Claim C3, as the code has it. \<open>from_json\<close> (the same in both files) checks no top-level
  field: an error of \<^verbatim>\<open>json.loads\<close> is passed on; for an object without \<^verbatim>\<open>cells\<close> the document
  has no cells, and its metadata is the object's \<^verbatim>\<open>metadata\<close> or the default one; for an
  object whose \<^verbatim>\<open>cells\<close> is a list of objects the document has one cell for each, and a cell
  object without \<^verbatim>\<open>cell_type\<close> becomes a code cell, any other keeps the type it names.
  \<^verbatim>\<open>nbformat\<close> and \<^verbatim>\<open>nbformat_minor\<close> are never read.
\<close>

theorem from_json_fields_optional:
  "(loads json_str = Inl e \<longrightarrow> from_json loads json_str = Inl e)
   \<and> (loads json_str = Inr (PDict data) \<and> map_of data ''cells'' = None \<longrightarrow>
        from_json loads json_str
          = Inr \<lparr> cells = [], doc_metadata = dict_get data ''metadata'' default_metadata \<rparr>)
   \<and> (loads json_str = Inr (PDict data) \<and> map_of data ''cells'' = Some (PList items)
        \<and> list_all is_dict items \<longrightarrow>
        (\<exists>doc. from_json loads json_str = Inr doc
           \<and> doc_metadata doc = dict_get data ''metadata'' default_metadata
           \<and> length (cells doc) = length items
           \<and> (\<forall>i < length items.
                 (map_of (dict_items (items ! i)) ''cell_type'' = None
                    \<longrightarrow> cell_type (cells doc ! i) = PStr ''code'')
               \<and> (\<forall>t. map_of (dict_items (items ! i)) ''cell_type'' = Some t
                    \<longrightarrow> cell_type (cells doc ! i) = t))))"
proof (intro conjI impI)
  assume "loads json_str = Inl e"
  then show "from_json loads json_str = Inl e" by (simp add: from_json_def)
next
  assume "loads json_str = Inr (PDict data) \<and> map_of data ''cells'' = None"
  then show "from_json loads json_str
          = Inr \<lparr> cells = [], doc_metadata = dict_get data ''metadata'' default_metadata \<rparr>"
    by (cases "map_of data ''metadata''")
       (simp_all add: from_json_def dict_get_def NotebookDocument_init_def)
next
  assume a: "loads json_str = Inr (PDict data) \<and> map_of data ''cells'' = Some (PList items)
        \<and> list_all is_dict items"
  then obtain doc where d: "from_json loads json_str = Inr doc"
     "doc_metadata doc = dict_get data ''metadata'' default_metadata"
     "length (cells doc) = length items"
     "\<forall>i < length items.
           cell_type (cells doc ! i) = dict_get (dict_items (items ! i)) ''cell_type'' (PStr ''code'')"
    using from_json_dicts [of loads json_str data items] by blast
  from d(4) have "\<forall>i < length items.
                 (map_of (dict_items (items ! i)) ''cell_type'' = None
                    \<longrightarrow> cell_type (cells doc ! i) = PStr ''code'')
               \<and> (\<forall>t. map_of (dict_items (items ! i)) ''cell_type'' = Some t
                    \<longrightarrow> cell_type (cells doc ! i) = t)"
    by (simp add: dict_get_def)
  with d(1-3) show "\<exists>doc. from_json loads json_str = Inr doc
           \<and> doc_metadata doc = dict_get data ''metadata'' default_metadata
           \<and> length (cells doc) = length items
           \<and> (\<forall>i < length items.
                 (map_of (dict_items (items ! i)) ''cell_type'' = None
                    \<longrightarrow> cell_type (cells doc ! i) = PStr ''code'')
               \<and> (\<forall>t. map_of (dict_items (items ! i)) ''cell_type'' = Some t
                    \<longrightarrow> cell_type (cells doc ! i) = t))"
    by blast
qed

theorem from_json_fields_optional_witness:
  "loads_examples ''not json'' = Inl JSONDecodeError
   \<and> from_json loads_examples ''not json'' = Inl JSONDecodeError
   \<and> loads_examples ''{}'' = Inr (PDict [])
   \<and> from_json loads_examples ''{}'' = Inr \<lparr> cells = [], doc_metadata = default_metadata \<rparr>
   \<and> (\<exists>doc. from_json loads_examples cells_only_json = Inr doc
         \<and> length (cells doc) = 2
         \<and> cell_type (cells doc ! 0) = PStr ''code''
         \<and> cell_type (cells doc ! 1) = PStr ''markdown'')"
proof -
  let ?items = "[PDict [(''source'', PList [PStr ''x = 1''])],
                 PDict [(''cell_type'', PStr ''markdown''), (''source'', PList [PStr ''hi''])]]"
  have a: "loads_examples ''not json'' = Inl JSONDecodeError" by code_simp
  have b: "loads_examples ''{}'' = Inr (PDict [])" by code_simp
  have c: "loads_examples cells_only_json = Inr (PDict [(''cells'', PList ?items)])" by code_simp
  from from_json_fields_optional [of loads_examples "''not json''" JSONDecodeError] a
  have 1: "from_json loads_examples ''not json'' = Inl JSONDecodeError" by blast
  from from_json_fields_optional [of loads_examples "''{}''" _ "[]"] b
  have 2: "from_json loads_examples ''{}'' = Inr \<lparr> cells = [], doc_metadata = default_metadata \<rparr>"
    by (simp add: dict_get_def)
  from from_json_fields_optional [of loads_examples cells_only_json _ "[(''cells'', PList ?items)]" ?items] c
  obtain doc where d: "from_json loads_examples cells_only_json = Inr doc"
    "length (cells doc) = length ?items"
    "\<forall>i < length ?items.
         (map_of (dict_items (?items ! i)) ''cell_type'' = None
            \<longrightarrow> cell_type (cells doc ! i) = PStr ''code'')
       \<and> (\<forall>t. map_of (dict_items (?items ! i)) ''cell_type'' = Some t
            \<longrightarrow> cell_type (cells doc ! i) = t)"
    by auto
  from d(3) have "cell_type (cells doc ! 0) = PStr ''code''" by (auto dest: spec [of _ 0])
  moreover from d(3) have "cell_type (cells doc ! 1) = PStr ''markdown''"
    by (auto dest: spec [of _ 1])
  ultimately show ?thesis using a b 1 2 d(1,2) by auto
qed

text \<open>
  Claim C3 as stated fails: the empty object has none of the four top-level fields, and
  \<open>from_json\<close> returns the fresh document for it.
\<close>

theorem from_json_accepts_empty_object:
  "loads_examples ''{}'' = Inr (PDict [])
   \<and> from_json loads_examples ''{}'' = Inr NotebookDocument_init"
  by code_simp

section \<open>Outputs of markdown cells\<close>

text \<open>
  Claim C9, as the code has it. \<open>cell_to_dict\<close> emits neither \<^verbatim>\<open>outputs\<close> nor
  \<^verbatim>\<open>execution_count\<close> for a cell whose type is not \<^verbatim>\<open>code\<close>; every cell of either parser has
  empty outputs; \<open>update_cell\<close> leaves the outputs of every cell as they were. \<open>from_json\<close>
  gives a cell the \<^verbatim>\<open>outputs\<close> of its cell object (the empty list when there are none or the
  value is falsy), whatever the cell's type.
\<close>

theorem markdown_outputs_never_serialized:
  "(cell_type cell \<noteq> PStr ''code'' \<longrightarrow>
      map_of (dict_items (cell_to_dict cell)) ''outputs'' = None
      \<and> map_of (dict_items (cell_to_dict cell)) ''execution_count'' = None)
   \<and> (\<forall>c \<in> set (parse_tagged_content content). outputs c = PList [])
   \<and> (\<forall>c \<in> set (parse_tagged_content_V1 content). outputs c = PList [])
   \<and> map outputs (cells (fst (update_cell doc index v))) = map outputs (cells doc)
   \<and> (loads json_str = Inr (PDict data) \<and> map_of data ''cells'' = Some (PList items)
        \<and> list_all is_dict items \<longrightarrow>
        (\<exists>d. from_json loads json_str = Inr d
           \<and> length (cells d) = length items
           \<and> (\<forall>i < length items.
                 outputs (cells d ! i)
                   = (if truthy (dict_get (dict_items (items ! i)) ''outputs'' (PList []))
                      then dict_get (dict_items (items ! i)) ''outputs'' (PList [])
                      else PList []))))"
proof (intro conjI impI)
  assume "cell_type cell \<noteq> PStr ''code''"
  then show "map_of (dict_items (cell_to_dict cell)) ''outputs'' = None"
    and "map_of (dict_items (cell_to_dict cell)) ''execution_count'' = None"
    by (simp_all add: cell_to_dict_def)
next
  show "\<forall>c \<in> set (parse_tagged_content content). outputs c = PList []"
    by (rule parse_outputs)
next
  show "\<forall>c \<in> set (parse_tagged_content_V1 content). outputs c = PList []"
    by (rule parse_V1_outputs)
next
  show "map outputs (cells (fst (update_cell doc index v))) = map outputs (cells doc)"
    by (rule update_cell_outputs)
next
  assume "loads json_str = Inr (PDict data) \<and> map_of data ''cells'' = Some (PList items)
        \<and> list_all is_dict items"
  then show "\<exists>d. from_json loads json_str = Inr d
           \<and> length (cells d) = length items
           \<and> (\<forall>i < length items.
                 outputs (cells d ! i)
                   = (if truthy (dict_get (dict_items (items ! i)) ''outputs'' (PList []))
                      then dict_get (dict_items (items ! i)) ''outputs'' (PList [])
                      else PList []))"
    using from_json_dicts [of loads json_str data items] by blast
qed

theorem markdown_outputs_never_serialized_witness:
  "cell_type (new_cell ''markdown'' ''hi'') \<noteq> PStr ''code''
   \<and> map_of (dict_items (cell_to_dict (new_cell ''markdown'' ''hi''))) ''outputs'' = None
   \<and> map_of (dict_items (cell_to_dict (new_cell ''markdown'' ''hi''))) ''execution_count'' = None
   \<and> list_all (\<lambda>c. outputs c = PList []) (parse_tagged_content tagged_example)
   \<and> list_all (\<lambda>c. outputs c = PList []) (parse_tagged_content_V1 tagged_example)
   \<and> (\<exists>d. from_json loads_examples markdown_outputs_json = Inr d
         \<and> length (cells d) = 1
         \<and> outputs (cells d ! 0) = PList [PDict [(''output_type'', PStr ''stream'')]])"
proof -
  let ?items = "[PDict [(''cell_type'', PStr ''markdown''),
                        (''source'', PList [PStr ''hi'']),
                        (''outputs'', PList [PDict [(''output_type'', PStr ''stream'')]])]]"
  have t: "cell_type (new_cell ''markdown'' ''hi'') \<noteq> PStr ''code''" by code_simp
  have l: "loads_examples markdown_outputs_json = Inr (PDict [(''cells'', PList ?items)])"
    by code_simp
  note h = markdown_outputs_never_serialized
             [of "new_cell ''markdown'' ''hi''" tagged_example two_cells 0 PNone loads_examples
                 markdown_outputs_json "[(''cells'', PList ?items)]" ?items]
  have c: "map_of [(''cells'', PList ?items)] ''cells'' = Some (PList ?items)" by simp
  have i: "list_all is_dict ?items" by simp
  from h l c i have "\<exists>d. from_json loads_examples markdown_outputs_json = Inr d
           \<and> length (cells d) = length ?items
           \<and> (\<forall>i < length ?items.
                 outputs (cells d ! i)
                   = (if truthy (dict_get (dict_items (?items ! i)) ''outputs'' (PList []))
                      then dict_get (dict_items (?items ! i)) ''outputs'' (PList [])
                      else PList []))"
    by blast
  then obtain d where d: "from_json loads_examples markdown_outputs_json = Inr d"
    "length (cells d) = length ?items"
    "\<forall>i < length ?items.
        outputs (cells d ! i)
          = (if truthy (dict_get (dict_items (?items ! i)) ''outputs'' (PList []))
             then dict_get (dict_items (?items ! i)) ''outputs'' (PList [])
             else PList [])"
    by blast
  from d(3) have o: "outputs (cells d ! 0) = PList [PDict [(''output_type'', PStr ''stream'')]]"
    by (auto simp: dict_get_def dest: spec [of _ 0])
  from h t o d(1,2) show ?thesis by (auto simp: list_all_iff)
qed

text \<open>
  Claim C9 as stated fails on \<open>from_json\<close>: a markdown cell object with outputs is loaded as a
  markdown cell whose outputs are not empty.
\<close>

theorem from_json_markdown_with_outputs:
  "from_json loads_examples markdown_outputs_json
     = Inr \<lparr> cells = [\<lparr> cell_type = PStr ''markdown'',
                          source = [PStr ''hi''],
                          outputs = PList [PDict [(''output_type'', PStr ''stream'')]],
                          metadata = PDict [] \<rparr>],
              doc_metadata = default_metadata \<rparr>"
  by code_simp

section \<open>The structure step never fails\<close>

text \<open>
  Claim C7. Whatever the model server streams and whatever \<^verbatim>\<open>json.loads\<close> does,
  \<open>generate_notebook_structure\<close> returns a dict with \<^verbatim>\<open>title\<close> and \<^verbatim>\<open>sections\<close>. When the
  stripped answer has a first \<^verbatim>\<open>{\<close> and behind it a last \<^verbatim>\<open>}\<close>, the text from the one to the
  other is parsed, and a parsed dict with both keys is returned as it is; when the text does
  not parse, or the parsed value is no dict or lacks a key, the default structure is
  returned; so it is when there are no such braces. Any other exception, of the transport or
  of the parser, yields the default structure of the outer handler. Both default structures
  have exactly one section.
\<close>

theorem generate_notebook_structure_total:
  "(\<exists>kv. generate_notebook_structure loads capitalize prompt chat = PDict kv
       \<and> map_of kv ''title'' \<noteq> None \<and> map_of kv ''sections'' \<noteq> None)
   \<and> (chat = Inr parts \<and> strip (concat parts) = a @ ''{'' @ b @ ''}'' @ c
        \<and> CHR ''{'' \<notin> set a \<and> CHR ''}'' \<notin> set c \<longrightarrow>
        (\<forall>kv. loads (''{'' @ b @ ''}'') = Inr (PDict kv)
              \<and> map_of kv ''title'' \<noteq> None \<and> map_of kv ''sections'' \<noteq> None \<longrightarrow>
              generate_notebook_structure loads capitalize prompt chat = PDict kv)
        \<and> (loads (''{'' @ b @ ''}'') = Inl JSONDecodeError \<longrightarrow>
              generate_notebook_structure loads capitalize prompt chat
                = default_structure (capitalize (strip prompt)) prompt)
        \<and> (\<forall>v. loads (''{'' @ b @ ''}'') = Inr v
              \<and> (\<not> is_dict v \<or> map_of (dict_items v) ''title'' = None
                  \<or> map_of (dict_items v) ''sections'' = None) \<longrightarrow>
              generate_notebook_structure loads capitalize prompt chat
                = default_structure (capitalize (strip prompt)) prompt)
        \<and> (\<forall>e. loads (''{'' @ b @ ''}'') = Inl e \<and> e \<noteq> JSONDecodeError \<longrightarrow>
              generate_notebook_structure loads capitalize prompt chat
                = error_structure (capitalize (strip prompt)) prompt))
   \<and> (chat = Inr parts \<and> \<not> (\<exists>a b c. strip (concat parts) = a @ ''{'' @ b @ ''}'' @ c) \<longrightarrow>
        generate_notebook_structure loads capitalize prompt chat
          = default_structure (capitalize (strip prompt)) prompt)
   \<and> (\<forall>e. chat = Inl e \<longrightarrow>
        generate_notebook_structure loads capitalize prompt chat
          = error_structure (capitalize (strip prompt)) prompt)
   \<and> (\<exists>sec. map_of (dict_items (default_structure t p)) ''sections'' = Some (PList [sec]))
   \<and> (\<exists>sec. map_of (dict_items (error_structure t p)) ''sections'' = Some (PList [sec]))"
proof (intro conjI)
  show "\<exists>kv. generate_notebook_structure loads capitalize prompt chat = PDict kv
       \<and> map_of kv ''title'' \<noteq> None \<and> map_of kv ''sections'' \<noteq> None"
    using structure_try_cases [of loads capitalize prompt chat]
      default_structure_keys [of "capitalize (strip prompt)" prompt]
      error_structure_keys [of "capitalize (strip prompt)" prompt]
    by (auto simp: generate_notebook_structure_def)
next
  show "chat = Inr parts \<and> strip (concat parts) = a @ ''{'' @ b @ ''}'' @ c
        \<and> CHR ''{'' \<notin> set a \<and> CHR ''}'' \<notin> set c \<longrightarrow>
        (\<forall>kv. loads (''{'' @ b @ ''}'') = Inr (PDict kv)
              \<and> map_of kv ''title'' \<noteq> None \<and> map_of kv ''sections'' \<noteq> None \<longrightarrow>
              generate_notebook_structure loads capitalize prompt chat = PDict kv)
        \<and> (loads (''{'' @ b @ ''}'') = Inl JSONDecodeError \<longrightarrow>
              generate_notebook_structure loads capitalize prompt chat
                = default_structure (capitalize (strip prompt)) prompt)
        \<and> (\<forall>v. loads (''{'' @ b @ ''}'') = Inr v
              \<and> (\<not> is_dict v \<or> map_of (dict_items v) ''title'' = None
                  \<or> map_of (dict_items v) ''sections'' = None) \<longrightarrow>
              generate_notebook_structure loads capitalize prompt chat
                = default_structure (capitalize (strip prompt)) prompt)
        \<and> (\<forall>e. loads (''{'' @ b @ ''}'') = Inl e \<and> e \<noteq> JSONDecodeError \<longrightarrow>
              generate_notebook_structure loads capitalize prompt chat
                = error_structure (capitalize (strip prompt)) prompt)"
  proof
    assume h: "chat = Inr parts \<and> strip (concat parts) = a @ ''{'' @ b @ ''}'' @ c
        \<and> CHR ''{'' \<notin> set a \<and> CHR ''}'' \<notin> set c"
    then have e: "structure_try loads capitalize prompt chat
         = (case loads (''{'' @ b @ ''}'') of
              Inl JSONDecodeError \<Rightarrow> Inr (default_structure (capitalize (strip prompt)) prompt)
            | Inl e \<Rightarrow> Inl e
            | Inr (PDict structure) \<Rightarrow>
                if map_of structure ''title'' \<noteq> None \<and> map_of structure ''sections'' \<noteq> None
                then Inr (PDict structure)
                else Inr (default_structure (capitalize (strip prompt)) prompt)
            | Inr v \<Rightarrow> Inr (default_structure (capitalize (strip prompt)) prompt))"
      using structure_try_braces by blast
    show "(\<forall>kv. loads (''{'' @ b @ ''}'') = Inr (PDict kv)
              \<and> map_of kv ''title'' \<noteq> None \<and> map_of kv ''sections'' \<noteq> None \<longrightarrow>
              generate_notebook_structure loads capitalize prompt chat = PDict kv)
        \<and> (loads (''{'' @ b @ ''}'') = Inl JSONDecodeError \<longrightarrow>
              generate_notebook_structure loads capitalize prompt chat
                = default_structure (capitalize (strip prompt)) prompt)
        \<and> (\<forall>v. loads (''{'' @ b @ ''}'') = Inr v
              \<and> (\<not> is_dict v \<or> map_of (dict_items v) ''title'' = None
                  \<or> map_of (dict_items v) ''sections'' = None) \<longrightarrow>
              generate_notebook_structure loads capitalize prompt chat
                = default_structure (capitalize (strip prompt)) prompt)
        \<and> (\<forall>e. loads (''{'' @ b @ ''}'') = Inl e \<and> e \<noteq> JSONDecodeError \<longrightarrow>
              generate_notebook_structure loads capitalize prompt chat
                = error_structure (capitalize (strip prompt)) prompt)"
      unfolding generate_notebook_structure_def e
      by (auto split: sum.splits py_error.splits pyval.splits)
  qed
next
  show "chat = Inr parts \<and> \<not> (\<exists>a b c. strip (concat parts) = a @ ''{'' @ b @ ''}'' @ c) \<longrightarrow>
        generate_notebook_structure loads capitalize prompt chat
          = default_structure (capitalize (strip prompt)) prompt"
    using structure_try_no_braces [of chat parts loads capitalize prompt]
    by (simp add: generate_notebook_structure_def)
next
  show "\<forall>e. chat = Inl e \<longrightarrow>
        generate_notebook_structure loads capitalize prompt chat
          = error_structure (capitalize (strip prompt)) prompt"
    by (simp add: generate_notebook_structure_def structure_try_def)
next
  show "\<exists>sec. map_of (dict_items (default_structure t p)) ''sections'' = Some (PList [sec])"
    by (simp add: default_structure_def)
next
  show "\<exists>sec. map_of (dict_items (error_structure t p)) ''sections'' = Some (PList [sec])"
    by (simp add: error_structure_def)
qed


theorem generate_notebook_structure_total_witness:
  "generate_notebook_structure loads_examples capitalize_ascii ''numpy basics''
       (Inr [''Here you go: {'', structure_body, ''} Enjoy!'', ''  ''])
     = PDict [(''title'', PStr ''T''), (''sections'', PList [])]
   \<and> generate_notebook_structure loads_examples capitalize_ascii ''numpy basics''
       (Inr [''Here you go: {'', ''oops'', ''} Enjoy!''])
     = default_structure ''Numpy basics'' ''numpy basics''
   \<and> generate_notebook_structure loads_examples capitalize_ascii ''numpy basics''
       (Inr [''no json here''])
     = default_structure ''Numpy basics'' ''numpy basics''
   \<and> generate_notebook_structure loads_examples capitalize_ascii ''numpy basics''
       (Inl (OtherError ''connection refused''))
     = error_structure ''Numpy basics'' ''numpy basics''"
proof -
  let ?G = "generate_notebook_structure loads_examples capitalize_ascii ''numpy basics''"
  have t: "capitalize_ascii (strip ''numpy basics'') = ''Numpy basics''" by code_simp
  have s1: "strip (concat [''Here you go: {'', structure_body, ''} Enjoy!'', ''  ''])
            = ''Here you go: '' @ ''{'' @ structure_body @ ''}'' @ '' Enjoy!''" by code_simp
  have n1: "CHR ''{'' \<notin> set ''Here you go: ''" "CHR ''}'' \<notin> set '' Enjoy!''" by simp_all
  have l1: "loads_examples (''{'' @ structure_body @ ''}'')
            = Inr (PDict [(''title'', PStr ''T''), (''sections'', PList [])])" by code_simp
  have k1: "map_of [(''title'', PStr ''T''), (''sections'', PList [])] ''title'' \<noteq> None"
    "map_of [(''title'', PStr ''T''), (''sections'', PList [])] ''sections'' \<noteq> None" by simp_all
  from generate_notebook_structure_total
         [of loads_examples capitalize_ascii "''numpy basics''"
             "Inr [''Here you go: {'', structure_body, ''} Enjoy!'', ''  '']"
             "[''Here you go: {'', structure_body, ''} Enjoy!'', ''  '']"
             "''Here you go: ''" structure_body "'' Enjoy!''"]
       s1 n1 l1 k1
  have 1: "?G (Inr [''Here you go: {'', structure_body, ''} Enjoy!'', ''  ''])
           = PDict [(''title'', PStr ''T''), (''sections'', PList [])]" by blast
  have s2: "strip (concat [''Here you go: {'', ''oops'', ''} Enjoy!''])
            = ''Here you go: '' @ ''{'' @ ''oops'' @ ''}'' @ '' Enjoy!''" by code_simp
  have l2: "loads_examples (''{'' @ ''oops'' @ ''}'') = Inl JSONDecodeError" by code_simp
  from generate_notebook_structure_total
         [of loads_examples capitalize_ascii "''numpy basics''"
             "Inr [''Here you go: {'', ''oops'', ''} Enjoy!'']"
             "[''Here you go: {'', ''oops'', ''} Enjoy!'']"
             "''Here you go: ''" "''oops''" "'' Enjoy!''"]
       s2 n1 l2
  have 2: "?G (Inr [''Here you go: {'', ''oops'', ''} Enjoy!''])
           = default_structure ''Numpy basics'' ''numpy basics''"
    unfolding t by blast
  have "CHR ''{'' \<notin> set (strip (concat [''no json here'']))" by code_simp
  then have n3: "\<not> (\<exists>a b c. strip (concat [''no json here'']) = a @ ''{'' @ b @ ''}'' @ c)"
    by (metis append_Cons in_set_conv_decomp)
  from generate_notebook_structure_total
         [of loads_examples capitalize_ascii "''numpy basics''" "Inr [''no json here'']"
             "[''no json here'']"]
       n3
  have 3: "?G (Inr [''no json here'']) = default_structure ''Numpy basics'' ''numpy basics''"
    unfolding t by blast
  from generate_notebook_structure_total
         [of loads_examples capitalize_ascii "''numpy basics''"
             "Inl (OtherError ''connection refused'')"]
  have 4: "?G (Inl (OtherError ''connection refused''))
           = error_structure ''Numpy basics'' ''numpy basics''"
    unfolding t by blast
  from 1 2 3 4 show ?thesis by (intro conjI)
qed

end
